theory Spec2Isabelle
  imports Main "HOL-Library.Multiset" "HOL-Library.Word"
begin

unbundle bit_operations_syntax

section \<open>The video converter worker\<close>

text \<open>
  The development embeds the Go package \<^verbatim>\<open>converter\<close> (the RabbitMQ-integrated
  converter, the pipeline of its standalone predecessor and the idempotency store) and the method
  \<^verbatim>\<open>PublishMessage\<close> of the package \<^verbatim>\<open>rabbitmq\<close>.

  Everything outside the repository is named after the Go call it stands for. Pure
  library functions whose behaviour the source fixes are written out
  (\<^verbatim>\<open>filepath.Base\<close>, the regular expression \<^verbatim>\<open>\d+\<close>, \<^verbatim>\<open>strconv.Atoi\<close> for a
  64-bit \<^verbatim>\<open>int\<close>); the others are fields of an environment record: the JSON decoder,
  \<^verbatim>\<open>filepath.Join\<close>, \<^verbatim>\<open>filepath.Glob\<close>, \<^verbatim>\<open>sort.Slice\<close>, the external command, the
  clock, and for every fallible call whether it fails. The general theorems use of
  \<^verbatim>\<open>sort.Slice\<close> only what its documentation promises; the concrete runs use the
  sorting algorithm of the Go library, written out in its own section.
\<close>

subsection \<open>Data\<close>

type_synonym path = string
type_synonym bytes = string

text \<open>A Go \<^verbatim>\<open>error\<close>; the string is what \<^verbatim>\<open>err.Error()\<close> returns.\<close>

datatype error = Error string

fun Error_of :: "error \<Rightarrow> string" where
  "Error_of (Error s) = s"

record VideoTask =
  VideoId :: int
  Path :: string

text \<open>A row of \<^verbatim>\<open>processed_videos\<close>: video_id, status, processed_at.\<close>

record processed_video =
  video_id :: int
  status :: string
  processed_at :: nat

text \<open>
  The map \<^verbatim>\<open>errorData\<close> built by \<^verbatim>\<open>logError\<close>. A row of \<^verbatim>\<open>process_errors_log\<close> keeps
  it as it is (the JSON text of \<^verbatim>\<open>json.Marshal\<close> is not modelled) with created_at.
\<close>

record errorData =
  ed_video_id :: int
  ed_error :: string
  ed_details :: string
  ed_time :: nat

datatype level = LevelInfo | LevelWarn | LevelError

text \<open>
  What the worker does to the outside, in order: a \<^verbatim>\<open>slog\<close> record (level and message;
  attributes are left out), the acknowledgment \<^verbatim>\<open>d.Ack(false)\<close>, the operations on
  the AMQP channel that succeeded, and every external command that was run.
\<close>

datatype event =
    Slog level string
  | Ack
  | ExchangeDeclared string
  | QueueDeclared string
  | QueueBound string string string
  | Published string string bytes
  | Ran "string list"

record world =
  files :: "path \<rightharpoonup> bytes"
  dirs :: "path list"
  processed_videos :: "processed_video list"
  process_errors_log :: "(errorData \<times> nat) list"
  trace :: "event list"

text \<open>The fallible calls, by what they are applied to.\<close>

datatype syscall =
    Create path
  | Open path
  | ReadFrom path
  | MkdirAll path
  | Remove path
  | QueryRow int
  | ExecInsertProcessed int
  | ExecInsertErrorLog
  | ExchangeDeclare string
  | QueueDeclare string
  | QueueBind string string string
  | Publish string string

record env =
  fault :: "syscall \<Rightarrow> error option"
  copied_before_fault :: "path \<Rightarrow> nat"
  json_Unmarshal :: "bytes \<Rightarrow> VideoTask \<times> error option"
  filepath_Join :: "path \<Rightarrow> path \<Rightarrow> path"
  filepath_Glob :: "path \<Rightarrow> error + path list"
  sort_Slice :: "(path \<Rightarrow> path \<Rightarrow> bool) \<Rightarrow> path list \<Rightarrow> path list"
  CombinedOutput :: "string list \<Rightarrow> bytes \<times> error option"
  queue_Name :: "string \<Rightarrow> string"
  time_Now :: nat

definition slog :: "level \<Rightarrow> string \<Rightarrow> world \<Rightarrow> world" where
  "slog l m w = w\<lparr>trace := trace w @ [Slog l m]\<rparr>"

definition emit :: "event \<Rightarrow> world \<Rightarrow> world" where
  "emit ev w = w\<lparr>trace := trace w @ [ev]\<rparr>"

subsection \<open>The ordering key of a chunk\<close>

definition isDigit :: "char \<Rightarrow> bool" where
  "isDigit c = (c \<in> set ''0123456789'')"

definition digitVal :: "char \<Rightarrow> nat" where
  "digitVal c = of_char c - 48"

definition decimal :: "string \<Rightarrow> nat" where
  "decimal s = foldl (\<lambda>n ch. n * 10 + digitVal ch) 0 s"

text \<open>The largest \<^verbatim>\<open>int\<close> of a 64-bit platform.\<close>

definition maxInt :: nat where
  "maxInt = 2 ^ 63 - 1"

text \<open>
  \<^verbatim>\<open>strconv.Atoi\<close>: an optional sign, then decimal digits only; the empty string and
  any other character are a syntax error, a value outside the \<^verbatim>\<open>int\<close> range is a
  range error.
\<close>

definition Atoi :: "string \<Rightarrow> error + int" where
  "Atoi s =
     (let neg = (take 1 s = ''-'');
          ds = (if take 1 s = ''-'' \<or> take 1 s = ''+'' then drop 1 s else s)
      in if ds = [] \<or> \<not> list_all isDigit ds then Inl (Error ''invalid syntax'')
         else if neg \<and> maxInt + 1 < decimal ds then Inl (Error ''value out of range'')
         else if \<not> neg \<and> maxInt < decimal ds then Inl (Error ''value out of range'')
         else Inr (if neg then - int (decimal ds) else int (decimal ds)))"

text \<open>\<^verbatim>\<open>filepath.Base\<close> with the separator \<^verbatim>\<open>/\<close>.\<close>

definition filepath_Base :: "path \<Rightarrow> string" where
  "filepath_Base p =
     (if p = [] then ''.''
      else let stripped = rev (dropWhile (\<lambda>c. c = CHR ''/'') (rev p));
               elem = rev (takeWhile (\<lambda>c. c \<noteq> CHR ''/'') (rev stripped))
           in if elem = [] then ''/'' else elem)"

text \<open>\<^verbatim>\<open>regexp.MustCompile(`\d+`).FindString\<close>: the leftmost longest run of digits,
  empty when there is none.\<close>

definition FindString_digits :: "string \<Rightarrow> string" where
  "FindString_digits s = takeWhile isDigit (dropWhile (\<lambda>c. \<not> isDigit c) s)"

definition extractNumber :: "path \<Rightarrow> int" where
  "extractNumber fileName =
     (let numStr = FindString_digits (filepath_Base fileName)
      in case Atoi numStr of Inl err \<Rightarrow> - 1 | Inr num \<Rightarrow> num)"

text \<open>The comparison \<^verbatim>\<open>mergeChunks\<close> hands to \<^verbatim>\<open>sort.Slice\<close>.\<close>

definition chunkLess :: "path \<Rightarrow> path \<Rightarrow> bool" where
  "chunkLess a b = (extractNumber a < extractNumber b)"

subsection \<open>Files\<close>

definition os_Create :: "env \<Rightarrow> path \<Rightarrow> world \<Rightarrow> error option \<times> world" where
  "os_Create e p w =
     (case fault e (Create p) of
        Some err \<Rightarrow> (Some err, w)
      | None \<Rightarrow> (None, w\<lparr>files := (files w)(p \<mapsto> [])\<rparr>))"

definition os_Open :: "env \<Rightarrow> path \<Rightarrow> world \<Rightarrow> error + bytes" where
  "os_Open e p w =
     (case fault e (Open p) of
        Some err \<Rightarrow> Inl err
      | None \<Rightarrow>
          (case files w p of
             None \<Rightarrow> Inl (Error (''open '' @ p @ '': no such file or directory''))
           | Some content \<Rightarrow> Inr content))"

definition appendTo :: "path \<Rightarrow> bytes \<Rightarrow> world \<Rightarrow> world" where
  "appendTo out bs w =
     w\<lparr>files := (files w)(out \<mapsto> (case files w out of None \<Rightarrow> [] | Some old \<Rightarrow> old) @ bs)\<rparr>"

text \<open>\<^verbatim>\<open>output.ReadFrom(input)\<close>: the content of the chunk is appended to the output
  file; a failure leaves what was copied before it.\<close>

definition File_ReadFrom :: "env \<Rightarrow> path \<Rightarrow> path \<Rightarrow> bytes \<Rightarrow> world \<Rightarrow> error option \<times> world" where
  "File_ReadFrom e out chunk content w =
     (case fault e (ReadFrom chunk) of
        Some err \<Rightarrow> (Some err, appendTo out (take (copied_before_fault e chunk) content) w)
      | None \<Rightarrow> (None, appendTo out content w))"

definition os_MkdirAll :: "env \<Rightarrow> path \<Rightarrow> world \<Rightarrow> error option \<times> world" where
  "os_MkdirAll e p w =
     (case fault e (MkdirAll p) of
        Some err \<Rightarrow> (Some err, w)
      | None \<Rightarrow> (None, w\<lparr>dirs := dirs w @ [p]\<rparr>))"

definition os_Remove :: "env \<Rightarrow> path \<Rightarrow> world \<Rightarrow> error option \<times> world" where
  "os_Remove e p w =
     (case fault e (Remove p) of
        Some err \<Rightarrow> (Some err, w)
      | None \<Rightarrow>
          (case files w p of
             None \<Rightarrow> (Some (Error (''remove '' @ p @ '': no such file or directory'')), w)
           | Some content \<Rightarrow> (None, w\<lparr>files := (files w)(p := None)\<rparr>)))"

subsection \<open>Merging the chunks (RabbitMQ-integrated converter)\<close>

text \<open>The loop \<^verbatim>\<open>for _, chunk := range chunks\<close> of \<^verbatim>\<open>mergeChunks\<close>.\<close>

fun copyChunks :: "env \<Rightarrow> path \<Rightarrow> path list \<Rightarrow> world \<Rightarrow> error option \<times> world" where
  "copyChunks e out [] w = (None, w)"
| "copyChunks e out (chunk # chunks) w =
     (case os_Open e chunk w of
        Inl err \<Rightarrow>
          (Some (Error (''failed to open chunk '' @ chunk @ '': '' @ Error_of err)), w)
      | Inr content \<Rightarrow>
          (case File_ReadFrom e out chunk content w of
             (Some err, w') \<Rightarrow>
               (Some (Error (''failed to write chunk '' @ chunk @ '' to merged file: '' @ Error_of err)), w')
           | (None, w') \<Rightarrow> copyChunks e out chunks w'))"

definition mergeChunks :: "env \<Rightarrow> path \<Rightarrow> path \<Rightarrow> world \<Rightarrow> error option \<times> world" where
  "mergeChunks e inputDir outputFile w =
     (case filepath_Glob e (filepath_Join e inputDir ''*.chunk'') of
        Inl err \<Rightarrow> (Some (Error (''failed to find chunks: '' @ Error_of err)), w)
      | Inr chunks \<Rightarrow>
          (let ordered = sort_Slice e chunkLess chunks
           in case os_Create e outputFile w of
                (Some err, w') \<Rightarrow>
                  (Some (Error (''failed to create merged file: '' @ Error_of err)), w')
              | (None, w') \<Rightarrow> copyChunks e outputFile ordered w'))"

subsection \<open>The idempotency store\<close>

text \<open>
  \<^verbatim>\<open>SELECT EXISTS(SELECT 1 FROM processed_videos where video_id = $1 and status = 'success')\<close>
  scanned into a \<^verbatim>\<open>bool\<close>.
\<close>

definition QueryRow_Scan :: "env \<Rightarrow> int \<Rightarrow> world \<Rightarrow> error + bool" where
  "QueryRow_Scan e videoId w =
     (case fault e (QueryRow videoId) of
        Some err \<Rightarrow> Inl err
      | None \<Rightarrow>
          Inr (list_ex (\<lambda>r. video_id r = videoId \<and> status r = ''success'') (processed_videos w)))"

definition IsProcessed :: "env \<Rightarrow> int \<Rightarrow> world \<Rightarrow> bool \<times> world" where
  "IsProcessed e videoId w =
     (case QueryRow_Scan e videoId w of
        Inl err \<Rightarrow> (False, slog LevelError ''error checking if video is processed'' w)
      | Inr isProcessed \<Rightarrow> (isProcessed, w))"

definition MarkProcessed :: "env \<Rightarrow> int \<Rightarrow> world \<Rightarrow> error option \<times> world" where
  "MarkProcessed e videoID w =
     (case fault e (ExecInsertProcessed videoID) of
        Some err \<Rightarrow> (Some err, slog LevelError ''Error marking video as processed'' w)
      | None \<Rightarrow>
          (None, w\<lparr>processed_videos := processed_videos w @
             [\<lparr>video_id = videoID, status = ''success'', processed_at = time_Now e\<rparr>]\<rparr>))"

definition RegisterError :: "env \<Rightarrow> errorData \<Rightarrow> error \<Rightarrow> world \<Rightarrow> world" where
  "RegisterError e data err w =
     (case fault e ExecInsertErrorLog of
        Some dbErr \<Rightarrow> slog LevelError ''Error storing error log in database'' w
      | None \<Rightarrow>
          slog LevelInfo ''Error log stored successfully''
            (w\<lparr>process_errors_log := process_errors_log w @ [(data, time_Now e)]\<rparr>))"

definition logError :: "env \<Rightarrow> VideoTask \<Rightarrow> string \<Rightarrow> error \<Rightarrow> world \<Rightarrow> world" where
  "logError e task message err w =
     (let data = \<lparr>ed_video_id = VideoId task, ed_error = message,
                  ed_details = Error_of err, ed_time = time_Now e\<rparr>
      in RegisterError e data err (slog LevelError ''Processing error'' w))"

subsection \<open>The pipeline (RabbitMQ-integrated converter)\<close>

definition exec_CombinedOutput :: "env \<Rightarrow> string list \<Rightarrow> world \<Rightarrow> (bytes \<times> error option) \<times> world" where
  "exec_CombinedOutput e argv w = (CombinedOutput e argv, emit (Ran argv) w)"

text \<open>The paths and the command line that both versions of \<^verbatim>\<open>processVideo\<close> build.\<close>

definition mergedFile :: "env \<Rightarrow> VideoTask \<Rightarrow> path" where
  "mergedFile e task = filepath_Join e (Path task) ''merged.mp4''"

definition mpegDashPath :: "env \<Rightarrow> VideoTask \<Rightarrow> path" where
  "mpegDashPath e task = filepath_Join e (Path task) ''mpeg-dash''"

definition ffmpegCmd :: "env \<Rightarrow> VideoTask \<Rightarrow> string list" where
  "ffmpegCmd e task =
     [''ffmpeg'', ''-i'', mergedFile e task, ''-f'', ''dash'',
      filepath_Join e (mpegDashPath e task) ''output.mpd'']"

definition processVideo :: "env \<Rightarrow> VideoTask \<Rightarrow> world \<Rightarrow> error option \<times> world" where
  "processVideo e task w =
     (case mergeChunks e (Path task) (mergedFile e task) (slog LevelInfo ''Merging chunks'' w) of
        (Some err, w1) \<Rightarrow> (Some (Error (''failed to merge chunks: '' @ Error_of err)), w1)
      | (None, w1) \<Rightarrow>
          (case os_MkdirAll e (mpegDashPath e task) w1 of
             (Some err, w2) \<Rightarrow>
               (Some (Error (''failed to create output directory: '' @ Error_of err)), w2)
           | (None, w2) \<Rightarrow>
               (case exec_CombinedOutput e (ffmpegCmd e task) w2 of
                  ((output, Some err), w3) \<Rightarrow>
                    (Some (Error (''failed to convert to MPEG-DASH: '' @ Error_of err
                                    @ '', output: '' @ output)), w3)
                | ((output, None), w3) \<Rightarrow>
                    (let w4 = slog LevelInfo ''Converted to MPEG-DASH'' w3;
                         w5 = (case os_Remove e (mergedFile e task) w4 of
                                 (Some err, w') \<Rightarrow> slog LevelWarn ''Failed to remove merged file'' w'
                               | (None, w') \<Rightarrow> w')
                     in (None, slog LevelInfo ''Removed merged file'' w5)))))"

subsection \<open>The standalone converter\<close>

fun copyChunks_standalone :: "env \<Rightarrow> path \<Rightarrow> path list \<Rightarrow> world \<Rightarrow> error option \<times> world" where
  "copyChunks_standalone e out [] w = (None, w)"
| "copyChunks_standalone e out (chunk # chunks) w =
     (case os_Open e chunk w of
        Inl err \<Rightarrow> (Some (Error (''failed to open chunk: '' @ Error_of err)), w)
      | Inr content \<Rightarrow>
          (case File_ReadFrom e out chunk content w of
             (Some err, w') \<Rightarrow>
               (Some (Error (''failed to write chunk '' @ chunk @ '' to merged file: '' @ Error_of err)), w')
           | (None, w') \<Rightarrow> copyChunks_standalone e out chunks w'))"

definition mergeChunks_standalone :: "env \<Rightarrow> path \<Rightarrow> path \<Rightarrow> world \<Rightarrow> error option \<times> world" where
  "mergeChunks_standalone e intputDir outputFile w =
     (case filepath_Glob e (filepath_Join e intputDir ''*.chunk'') of
        Inl err \<Rightarrow> (Some (Error (''failed to find chunks: '' @ Error_of err)), w)
      | Inr chunks \<Rightarrow>
          (let ordered = sort_Slice e chunkLess chunks
           in case os_Create e outputFile w of
                (Some err, w') \<Rightarrow>
                  (Some (Error (''failed to create output file: '' @ Error_of err)), w')
              | (None, w') \<Rightarrow> copyChunks_standalone e outputFile ordered w'))"

definition processVideo_standalone :: "env \<Rightarrow> VideoTask \<Rightarrow> world \<Rightarrow> error option \<times> world" where
  "processVideo_standalone e task w =
     (case mergeChunks_standalone e (Path task) (mergedFile e task)
             (slog LevelInfo ''Merging chunks'' w) of
        (Some err, w1) \<Rightarrow> (Some err, logError e task ''Failed to merge chunks'' err w1)
      | (None, w1) \<Rightarrow>
          (case os_MkdirAll e (mpegDashPath e task) (slog LevelInfo ''Creating mpeg-dash dir'' w1) of
             (Some err, w2) \<Rightarrow>
               (Some err, logError e task ''Failed to create mpeg-dash directory'' err w2)
           | (None, w2) \<Rightarrow>
               (case exec_CombinedOutput e (ffmpegCmd e task)
                       (slog LevelInfo ''Converting video to mpeg-dash'' w2) of
                  ((output, Some err), w3) \<Rightarrow>
                    (Some err,
                     logError e task (''Failed to convert video to mpeg-dash, output'' @ output) err w3)
                | ((output, None), w3) \<Rightarrow>
                    (case os_Remove e (mergedFile e task)
                            (slog LevelInfo ''Removing merged file''
                               (slog LevelInfo ''Video converted to mpeg-dash'' w3)) of
                       (Some err, w4) \<Rightarrow>
                         (Some err, logError e task ''Failed to remove merged file'' err w4)
                     | (None, w4) \<Rightarrow> (None, w4)))))"

subsection \<open>Publishing (package rabbitmq)\<close>

definition PublishMessage ::
  "env \<Rightarrow> string \<Rightarrow> string \<Rightarrow> string \<Rightarrow> bytes \<Rightarrow> world \<Rightarrow> error option \<times> world" where
  "PublishMessage e exchange routingKey queueName message w =
     (case fault e (ExchangeDeclare exchange) of
        Some err \<Rightarrow> (Some (Error (''failed to declare exchange: '' @ Error_of err)), w)
      | None \<Rightarrow>
          (let w1 = emit (ExchangeDeclared exchange) w
           in case fault e (QueueDeclare queueName) of
                Some err \<Rightarrow> (Some (Error (''failed to declare queue: '' @ Error_of err)), w1)
              | None \<Rightarrow>
                  (let queue = queue_Name e queueName;
                       w2 = emit (QueueDeclared queue) w1
                   in case fault e (QueueBind queue routingKey exchange) of
                        Some err \<Rightarrow> (Some (Error (''failed to bind queue: '' @ Error_of err)), w2)
                      | None \<Rightarrow>
                          (let w3 = emit (QueueBound queue routingKey exchange) w2
                           in case fault e (Publish exchange routingKey) of
                                Some err \<Rightarrow>
                                  (Some (Error (''failed to publish messages: '' @ Error_of err)), w3)
                              | None \<Rightarrow>
                                  (None, emit (Published exchange routingKey message) w3)))))"

subsection \<open>The handler (RabbitMQ-integrated converter)\<close>

text \<open>The verb \<^verbatim>\<open>%d\<close> of \<^verbatim>\<open>fmt.Sprintf\<close>.\<close>

fun natDigits :: "nat \<Rightarrow> string" where
  "natDigits n =
     (if n < 10 then [char_of (48 + n)] else natDigits (n div 10) @ [char_of (48 + n mod 10)])"

definition Sprint_d :: "int \<Rightarrow> string" where
  "Sprint_d i = (if i < 0 then CHR ''-'' # natDigits (nat (- i)) else natDigits (nat i))"

definition confirmationMessage :: "VideoTask \<Rightarrow> bytes" where
  "confirmationMessage task =
     [CHR ''{'', CHR 0x22] @ ''video_id'' @ [CHR 0x22] @ '': '' @ Sprint_d (VideoId task) @ '', ''
       @ [CHR 0x22] @ ''path'' @ [CHR 0x22] @ '':'' @ [CHR 0x22] @ Path task @ [CHR 0x22, CHR ''}'']"

definition Handle :: "env \<Rightarrow> bytes \<Rightarrow> string \<Rightarrow> string \<Rightarrow> string \<Rightarrow> world \<Rightarrow> world" where
  "Handle e body conversionExch confirmationKey confirmationQueue w =
     (case json_Unmarshal e body of
        (task, Some err) \<Rightarrow> logError e task ''Failed to unmarshal task'' err w
      | (task, None) \<Rightarrow>
          (case IsProcessed e (VideoId task) w of
             (True, w1) \<Rightarrow> emit Ack (slog LevelWarn ''Video already processed'' w1)
           | (False, w1) \<Rightarrow>
               (case processVideo e task w1 of
                  (Some err, w2) \<Rightarrow> logError e task ''Failed to process video'' err w2
                | (None, w2) \<Rightarrow>
                    (case MarkProcessed e (VideoId task) w2 of
                       (Some err, w3) \<Rightarrow>
                         logError e task ''Failed to mark video as processed'' err w3
                     | (None, w3) \<Rightarrow>
                         snd (PublishMessage e conversionExch confirmationKey confirmationQueue
                                (confirmationMessage task)
                                (slog LevelInfo ''Video marked as processed'' (emit Ack w3)))))))"

section \<open>\<^verbatim>\<open>sort.Slice\<close> in the Go library\<close>

text \<open>
  The repository imports \<^verbatim>\<open>log/slog\<close>, so it is built with Go 1.21 or later, where
  \<^verbatim>\<open>sort.Slice(x, less)\<close> runs \<^verbatim>\<open>pdqsort_func\<close> (pattern-defeating quicksort) on the whole
  slice with the limit \<^verbatim>\<open>bits.Len(length)\<close>. The functions below follow
  \<^verbatim>\<open>zsortfunc.go\<close> of the package \<^verbatim>\<open>sort\<close> in a current release. What
  \<^verbatim>\<open>breakPatterns_func\<close> exchanges depends on the release (\<^verbatim>\<open>xorshift.Next\<close> has the shifts
  13, 7, 17 written here since Go 1.24); the library reaches that function only after
  an unbalanced partition has left a range of more than twelve elements, so never for
  a slice of at most thirteen elements. The slice is a list, \<^verbatim>\<open>data.Swap\<close> and
  \<^verbatim>\<open>data.Less\<close> work on its indices, and indices are natural numbers (the loops
  that count down stop at \<open>a\<close> or at \<open>i\<close>, which are at least 0 or 1 where the library
  calls them). A slice of at most twelve elements is sorted by insertion sort. The
  outer loop of \<^verbatim>\<open>pdqsort_func\<close> takes fuel; \<open>pdqsort_func_returns\<close> shows that the
  fuel \<^verbatim>\<open>sort.Slice\<close> is given here always suffices.
\<close>

definition Swap :: "'a list \<Rightarrow> nat \<Rightarrow> nat \<Rightarrow> 'a list" where
  "Swap data i j = data[i := data ! j, j := data ! i]"

definition Less :: "('a \<Rightarrow> 'a \<Rightarrow> bool) \<Rightarrow> 'a list \<Rightarrow> nat \<Rightarrow> nat \<Rightarrow> bool" where
  "Less lt data i j = lt (data ! i) (data ! j)"

fun insertDown :: "('a \<Rightarrow> 'a \<Rightarrow> bool) \<Rightarrow> 'a list \<Rightarrow> nat \<Rightarrow> nat \<Rightarrow> 'a list" where
  "insertDown lt data a 0 = data"
| "insertDown lt data a (Suc j) =
     (if a < Suc j \<and> Less lt data (Suc j) j then insertDown lt (Swap data (Suc j) j) a j else data)"

definition insertionSort_func :: "('a \<Rightarrow> 'a \<Rightarrow> bool) \<Rightarrow> 'a list \<Rightarrow> nat \<Rightarrow> nat \<Rightarrow> 'a list" where
  "insertionSort_func lt data a b = foldl (\<lambda>d i. insertDown lt d a i) data [a + 1..<b]"

function siftDown_func :: "('a \<Rightarrow> 'a \<Rightarrow> bool) \<Rightarrow> 'a list \<Rightarrow> nat \<Rightarrow> nat \<Rightarrow> nat \<Rightarrow> 'a list" where
  "siftDown_func lt data root hi first =
     (if hi \<le> 2 * root + 1 then data
      else let child = (if 2 * root + 2 < hi \<and> Less lt data (first + (2 * root + 1)) (first + (2 * root + 1) + 1)
                        then 2 * root + 2 else 2 * root + 1)
           in if \<not> Less lt data (first + root) (first + child) then data
              else siftDown_func lt (Swap data (first + root) (first + child)) child hi first)"
  by pat_completeness auto
termination
  by (relation "measure (\<lambda>(lt, data, root, hi, first). hi - root)") (auto split: if_splits)

declare siftDown_func.simps [simp del]

definition heapSort_func :: "('a \<Rightarrow> 'a \<Rightarrow> bool) \<Rightarrow> 'a list \<Rightarrow> nat \<Rightarrow> nat \<Rightarrow> 'a list" where
  "heapSort_func lt data a b =
     (let first = a; lo = 0; hi = b - a;
          heap = foldl (\<lambda>d i. siftDown_func lt d i hi first) data (rev [0..<Suc ((hi - 1) div 2)])
      in foldl (\<lambda>d i. siftDown_func lt (Swap d first (first + i)) lo i first) heap (rev [0..<hi]))"

function scanUp :: "('a \<Rightarrow> 'a \<Rightarrow> bool) \<Rightarrow> 'a list \<Rightarrow> nat \<Rightarrow> nat \<Rightarrow> nat \<Rightarrow> nat" where
  "scanUp lt data a i j = (if i \<le> j \<and> Less lt data i a then scanUp lt data a (i + 1) j else i)"
  by pat_completeness auto
termination
  by (relation "measure (\<lambda>(lt, data, a, i, j). Suc j - i)") auto

declare scanUp.simps [simp del]

fun scanDown :: "('a \<Rightarrow> 'a \<Rightarrow> bool) \<Rightarrow> 'a list \<Rightarrow> nat \<Rightarrow> nat \<Rightarrow> nat \<Rightarrow> nat" where
  "scanDown lt data a i 0 = 0"
| "scanDown lt data a i (Suc j) =
     (if i \<le> Suc j \<and> \<not> Less lt data (Suc j) a then scanDown lt data a i j else Suc j)"

lemma scanUp_ge: "i \<le> scanUp lt data a i j"
proof (induction lt data a i j rule: scanUp.induct)
  case (1 lt data a i j)
  then show ?case by (subst scanUp.simps) auto
qed

lemma scanDown_le: "scanDown lt data a i j \<le> j"
  by (induction j) auto

function partitionLoop ::
  "('a \<Rightarrow> 'a \<Rightarrow> bool) \<Rightarrow> 'a list \<Rightarrow> nat \<Rightarrow> nat \<Rightarrow> nat \<Rightarrow> 'a list \<times> nat" where
  "partitionLoop lt data a i j =
     (let i' = scanUp lt data a i j; j' = scanDown lt data a i' j
      in if j' < i' then (Swap data j' a, j')
         else partitionLoop lt (Swap data i' j') a (i' + 1) (j' - 1))"
  by pat_completeness auto
termination
proof (relation "measure (\<lambda>(lt, data, a, i, j). Suc j - i)")
  show "wf (measure (\<lambda>(lt, data, a, i, j). Suc j - i))" by simp
next
  fix lt :: "'a \<Rightarrow> 'a \<Rightarrow> bool" and data a i j x xa
  assume "x = scanUp lt data a i j" "xa = scanDown lt data a x j" "\<not> xa < x"
  then show "((lt, Swap data x xa, a, x + 1, xa - 1), lt, data, a, i, j)
      \<in> measure (\<lambda>(lt, data, a, i, j). Suc j - i)"
    using scanUp_ge [of i lt data a j] scanDown_le [of lt data a x j] by auto
qed

declare partitionLoop.simps [simp del]

definition partition_func ::
  "('a \<Rightarrow> 'a \<Rightarrow> bool) \<Rightarrow> 'a list \<Rightarrow> nat \<Rightarrow> nat \<Rightarrow> nat \<Rightarrow> 'a list \<times> nat \<times> bool" where
  "partition_func lt data0 a b pivot =
     (let data = Swap data0 a pivot;
          i = scanUp lt data a (a + 1) (b - 1);
          j = scanDown lt data a i (b - 1)
      in if j < i then (Swap data j a, j, True)
         else (let (data', newpivot) = partitionLoop lt (Swap data i j) a (i + 1) (j - 1)
               in (data', newpivot, False)))"

function scanUpEqual :: "('a \<Rightarrow> 'a \<Rightarrow> bool) \<Rightarrow> 'a list \<Rightarrow> nat \<Rightarrow> nat \<Rightarrow> nat \<Rightarrow> nat" where
  "scanUpEqual lt data a i j = (if i \<le> j \<and> \<not> Less lt data a i then scanUpEqual lt data a (i + 1) j else i)"
  by pat_completeness auto
termination
  by (relation "measure (\<lambda>(lt, data, a, i, j). Suc j - i)") auto

declare scanUpEqual.simps [simp del]

fun scanDownEqual :: "('a \<Rightarrow> 'a \<Rightarrow> bool) \<Rightarrow> 'a list \<Rightarrow> nat \<Rightarrow> nat \<Rightarrow> nat \<Rightarrow> nat" where
  "scanDownEqual lt data a i 0 = 0"
| "scanDownEqual lt data a i (Suc j) =
     (if i \<le> Suc j \<and> Less lt data a (Suc j) then scanDownEqual lt data a i j else Suc j)"

lemma scanUpEqual_ge: "i \<le> scanUpEqual lt data a i j"
proof (induction lt data a i j rule: scanUpEqual.induct)
  case (1 lt data a i j)
  then show ?case by (subst scanUpEqual.simps) auto
qed

lemma scanDownEqual_le: "scanDownEqual lt data a i j \<le> j"
  by (induction j) auto

function partitionEqualLoop ::
  "('a \<Rightarrow> 'a \<Rightarrow> bool) \<Rightarrow> 'a list \<Rightarrow> nat \<Rightarrow> nat \<Rightarrow> nat \<Rightarrow> 'a list \<times> nat" where
  "partitionEqualLoop lt data a i j =
     (let i' = scanUpEqual lt data a i j; j' = scanDownEqual lt data a i' j
      in if j' < i' then (data, i')
         else partitionEqualLoop lt (Swap data i' j') a (i' + 1) (j' - 1))"
  by pat_completeness auto
termination
proof (relation "measure (\<lambda>(lt, data, a, i, j). Suc j - i)")
  show "wf (measure (\<lambda>(lt, data, a, i, j). Suc j - i))" by simp
next
  fix lt :: "'a \<Rightarrow> 'a \<Rightarrow> bool" and data a i j x xa
  assume "x = scanUpEqual lt data a i j" "xa = scanDownEqual lt data a x j" "\<not> xa < x"
  then show "((lt, Swap data x xa, a, x + 1, xa - 1), lt, data, a, i, j)
      \<in> measure (\<lambda>(lt, data, a, i, j). Suc j - i)"
    using scanUpEqual_ge [of i lt data a j] scanDownEqual_le [of lt data a x j] by auto
qed

declare partitionEqualLoop.simps [simp del]

definition partitionEqual_func ::
  "('a \<Rightarrow> 'a \<Rightarrow> bool) \<Rightarrow> 'a list \<Rightarrow> nat \<Rightarrow> nat \<Rightarrow> nat \<Rightarrow> 'a list \<times> nat" where
  "partitionEqual_func lt data a b pivot = partitionEqualLoop lt (Swap data a pivot) a (a + 1) (b - 1)"

function skipSorted :: "('a \<Rightarrow> 'a \<Rightarrow> bool) \<Rightarrow> 'a list \<Rightarrow> nat \<Rightarrow> nat \<Rightarrow> nat" where
  "skipSorted lt data i b = (if i < b \<and> \<not> Less lt data i (i - 1) then skipSorted lt data (i + 1) b else i)"
  by pat_completeness auto
termination
  by (relation "measure (\<lambda>(lt, data, i, b). b - i)") auto

declare skipSorted.simps [simp del]

fun shiftLeft :: "('a \<Rightarrow> 'a \<Rightarrow> bool) \<Rightarrow> 'a list \<Rightarrow> nat \<Rightarrow> 'a list" where
  "shiftLeft lt data 0 = data"
| "shiftLeft lt data (Suc j) =
     (if \<not> Less lt data (Suc j) j then data else shiftLeft lt (Swap data (Suc j) j) j)"

function shiftRight :: "('a \<Rightarrow> 'a \<Rightarrow> bool) \<Rightarrow> 'a list \<Rightarrow> nat \<Rightarrow> nat \<Rightarrow> 'a list" where
  "shiftRight lt data j b =
     (if j < b then (if \<not> Less lt data j (j - 1) then data
                     else shiftRight lt (Swap data j (j - 1)) (j + 1) b)
      else data)"
  by pat_completeness auto
termination
  by (relation "measure (\<lambda>(lt, data, j, b). b - j)") auto

declare shiftRight.simps [simp del]

fun partialLoop ::
  "nat \<Rightarrow> ('a \<Rightarrow> 'a \<Rightarrow> bool) \<Rightarrow> 'a list \<Rightarrow> nat \<Rightarrow> nat \<Rightarrow> nat \<Rightarrow> 'a list \<times> bool" where
  "partialLoop 0 lt data a b i = (data, False)"
| "partialLoop (Suc steps) lt data a b i =
     (let i' = skipSorted lt data i b
      in if i' = b then (data, True)
         else if b - a < 50 then (data, False)
         else (let d1 = Swap data i' (i' - 1);
                   d2 = (if 2 \<le> i' - a then shiftLeft lt d1 (i' - 1) else d1);
                   d3 = (if 2 \<le> b - i' then shiftRight lt d2 (i' + 1) b else d2)
               in partialLoop steps lt d3 a b i'))"

definition partialInsertionSort_func ::
  "('a \<Rightarrow> 'a \<Rightarrow> bool) \<Rightarrow> 'a list \<Rightarrow> nat \<Rightarrow> nat \<Rightarrow> 'a list \<times> bool" where
  "partialInsertionSort_func lt data a b = partialLoop 5 lt data a b (a + 1)"

fun bits_Len :: "nat \<Rightarrow> nat" where
  "bits_Len n = (if n = 0 then 0 else Suc (bits_Len (n div 2)))"

text \<open>
  The generator of \<^verbatim>\<open>breakPatterns_func\<close>, seeded with the length of the range, and the
  three exchanges around the middle candidate of \<^verbatim>\<open>choosePivot_func\<close>.
\<close>

definition xorshift_Next :: "64 word \<Rightarrow> 64 word" where
  "xorshift_Next r =
     (let r1 = r XOR push_bit 13 r; r2 = r1 XOR drop_bit 7 r1 in r2 XOR push_bit 17 r2)"

definition nextPowerOfTwo :: "nat \<Rightarrow> nat" where
  "nextPowerOfTwo n = 2 ^ bits_Len n"

definition breakPatterns_func :: "'a list \<Rightarrow> nat \<Rightarrow> nat \<Rightarrow> 'a list" where
  "breakPatterns_func data a b =
     (let n = b - a
      in if 8 \<le> n
         then (let modulus = nextPowerOfTwo n; idx = a + (n div 4) * 2 - 1
               in fst (foldl (\<lambda>(d, random) i.
                         (let r = xorshift_Next random;
                              other = unat (r AND of_nat (modulus - 1));
                              other' = (if n \<le> other then other - n else other)
                          in (Swap d (idx + i) (a + other'), r)))
                       (data, of_nat n) [0..<3]))
         else data)"

datatype sortedHint = unknownHint | increasingHint | decreasingHint

definition order2_func ::
  "('a \<Rightarrow> 'a \<Rightarrow> bool) \<Rightarrow> 'a list \<Rightarrow> nat \<Rightarrow> nat \<Rightarrow> nat \<Rightarrow> nat \<times> nat \<times> nat" where
  "order2_func lt data a b swaps = (if Less lt data b a then (b, a, swaps + 1) else (a, b, swaps))"

definition median_func ::
  "('a \<Rightarrow> 'a \<Rightarrow> bool) \<Rightarrow> 'a list \<Rightarrow> nat \<Rightarrow> nat \<Rightarrow> nat \<Rightarrow> nat \<Rightarrow> nat \<times> nat" where
  "median_func lt data a b c swaps =
     (let (a1, b1, s1) = order2_func lt data a b swaps;
          (b2, c2, s2) = order2_func lt data b1 c s1;
          (a3, b3, s3) = order2_func lt data a1 b2 s2
      in (b3, s3))"

definition medianAdjacent_func ::
  "('a \<Rightarrow> 'a \<Rightarrow> bool) \<Rightarrow> 'a list \<Rightarrow> nat \<Rightarrow> nat \<Rightarrow> nat \<times> nat" where
  "medianAdjacent_func lt data a swaps = median_func lt data (a - 1) a (a + 1) swaps"

definition choosePivot_func ::
  "('a \<Rightarrow> 'a \<Rightarrow> bool) \<Rightarrow> 'a list \<Rightarrow> nat \<Rightarrow> nat \<Rightarrow> nat \<times> sortedHint" where
  "choosePivot_func lt data a b =
     (let l = b - a;
          i = a + l div 4 * 1;
          j = a + l div 4 * 2;
          k = a + l div 4 * 3;
          (pivot, swaps) =
            (if 8 \<le> l
             then (if 50 \<le> l
                   then (let (i', s1) = medianAdjacent_func lt data i 0;
                             (j', s2) = medianAdjacent_func lt data j s1;
                             (k', s3) = medianAdjacent_func lt data k s2
                         in median_func lt data i' j' k' s3)
                   else median_func lt data i j k 0)
             else (j, 0))
      in (pivot, if swaps = 0 then increasingHint
                 else if swaps = 4 * 3 then decreasingHint else unknownHint))"

function reverseLoop :: "'a list \<Rightarrow> nat \<Rightarrow> nat \<Rightarrow> 'a list" where
  "reverseLoop data i j = (if i < j then reverseLoop (Swap data i j) (i + 1) (j - 1) else data)"
  by pat_completeness auto
termination
  by (relation "measure (\<lambda>(data, i, j). j - i)") auto

declare reverseLoop.simps [simp del]

definition reverseRange_func :: "'a list \<Rightarrow> nat \<Rightarrow> nat \<Rightarrow> 'a list" where
  "reverseRange_func data a b = reverseLoop data a (b - 1)"


primrec pdqsort_func ::
  "nat \<Rightarrow> ('a \<Rightarrow> 'a \<Rightarrow> bool) \<Rightarrow> 'a list \<Rightarrow> nat \<Rightarrow> nat \<Rightarrow> nat \<Rightarrow> bool \<Rightarrow> bool \<Rightarrow> 'a list option" where
  "pdqsort_func 0 lt data a b limit wasBalanced wasPartitioned = None"
| "pdqsort_func (Suc fuel) lt data a b limit wasBalanced wasPartitioned =
     (if b - a \<le> 12 then Some (insertionSort_func lt data a b)
      else if limit = 0 then Some (heapSort_func lt data a b)
      else
        (let d1 = (if \<not> wasBalanced then breakPatterns_func data a b else data);
             limit1 = (if \<not> wasBalanced then limit - 1 else limit);
             (pivot0, hint0) = choosePivot_func lt d1 a b;
             d2 = (if hint0 = decreasingHint then reverseRange_func d1 a b else d1);
             pivot = (if hint0 = decreasingHint then (b - 1) - (pivot0 - a) else pivot0);
             hint = (if hint0 = decreasingHint then increasingHint else hint0);
             (d3, isSorted) =
               (if wasBalanced \<and> wasPartitioned \<and> hint = increasingHint
                then partialInsertionSort_func lt d2 a b else (d2, False))
         in if isSorted then Some d3
            else if 0 < a \<and> \<not> Less lt d3 (a - 1) pivot
            then (let (d4, mid) = partitionEqual_func lt d3 a b pivot
                  in pdqsort_func fuel lt d4 mid b limit1 wasBalanced wasPartitioned)
            else (let (d4, mid, alreadyPartitioned) = partition_func lt d3 a b pivot;
                      leftLen = mid - a;
                      rightLen = b - mid;
                      balanceThreshold = (b - a) div 8
                  in if leftLen < rightLen
                     then (case pdqsort_func fuel lt d4 a mid limit1 True True of
                             None \<Rightarrow> None
                           | Some d5 \<Rightarrow>
                               pdqsort_func fuel lt d5 (mid + 1) b limit1
                                 (balanceThreshold \<le> leftLen) alreadyPartitioned)
                     else (case pdqsort_func fuel lt d4 (mid + 1) b limit1 True True of
                             None \<Rightarrow> None
                           | Some d5 \<Rightarrow>
                               pdqsort_func fuel lt d5 a mid limit1
                                 (balanceThreshold \<le> rightLen) alreadyPartitioned))))"

text \<open>\<^verbatim>\<open>sort.Slice\<close> itself.\<close>

definition sort_Slice_go :: "('a \<Rightarrow> 'a \<Rightarrow> bool) \<Rightarrow> 'a list \<Rightarrow> 'a list" where
  "sort_Slice_go lt data =
     (case pdqsort_func (Suc (length data)) lt data 0 (length data) (bits_Len (length data)) True True of
        Some d \<Rightarrow> d
      | None \<Rightarrow> data)"

section \<open>Concrete runs\<close>

subsection \<open>A concrete environment\<close>

text \<open>
  \<^verbatim>\<open>filepath.Clean\<close> and \<^verbatim>\<open>filepath.Join\<close> for the separator \<^verbatim>\<open>/\<close>. \<^verbatim>\<open>Clean\<close> drops empty
  elements and \<^verbatim>\<open>.\<close>, lets \<^verbatim>\<open>..\<close> take back the element before it (at the root it is
  dropped, at the start of a relative path it stays), and answers \<^verbatim>\<open>.\<close> for an empty
  result. \<^verbatim>\<open>Join\<close> cleans what it joins from the first non-empty element on.
\<close>

fun splitSeparator :: "path \<Rightarrow> string list" where
  "splitSeparator [] = [[]]"
| "splitSeparator (c # cs) =
     (if c = CHR ''/'' then [] # splitSeparator cs
      else (case splitSeparator cs of [] \<Rightarrow> [[c]] | el # els \<Rightarrow> (c # el) # els))"

fun joinSeparator :: "string list \<Rightarrow> path" where
  "joinSeparator [] = []"
| "joinSeparator [el] = el"
| "joinSeparator (el # el' # els) = el @ ''/'' @ joinSeparator (el' # els)"

definition cleanElem :: "bool \<Rightarrow> string list \<Rightarrow> string \<Rightarrow> string list" where
  "cleanElem rooted out el =
     (if el = [] \<or> el = ''.'' then out
      else if el = ''..''
      then (if out \<noteq> [] \<and> last out \<noteq> ''..'' then butlast out
            else if rooted then out else out @ [''..''])
      else out @ [el])"

definition filepath_Clean :: "path \<Rightarrow> path" where
  "filepath_Clean p =
     (let rooted = (take 1 p = ''/'');
          out = joinSeparator (foldl (cleanElem rooted) [] (splitSeparator p));
          r = (if rooted then CHR ''/'' # out else out)
      in if r = [] then ''.'' else r)"

definition filepath_join :: "path \<Rightarrow> path \<Rightarrow> path" where
  "filepath_join a b =
     (if a \<noteq> [] then filepath_Clean (a @ ''/'' @ b)
      else if b \<noteq> [] then filepath_Clean b
      else [])"

text \<open>
  The job of the runs and the body that carries it,
  \<^verbatim>\<open>{"video_id": 1, "path": "media/uploads/1"}\<close>. The decoder of the runs knows this body
  and the empty one; any other body it reports as malformed. The directory of the job
  is the only one that holds chunks.
\<close>

definition task1 :: VideoTask where
  "task1 = \<lparr>VideoId = 1, Path = ''media/uploads/1''\<rparr>"

definition body1 :: bytes where
  "body1 =
     [CHR ''{'', CHR 0x22] @ ''video_id'' @ [CHR 0x22] @ '': 1, '' @ [CHR 0x22] @ ''path''
       @ [CHR 0x22] @ '': '' @ [CHR 0x22] @ ''media/uploads/1'' @ [CHR 0x22, CHR ''}'']"

definition env0 :: "path list \<Rightarrow> env" where
  "env0 chunks =
     \<lparr>fault = (\<lambda>c. None),
      copied_before_fault = (\<lambda>p. 0),
      json_Unmarshal =
        (\<lambda>body. if body = body1 then (task1, None)
                else if body = []
                then (\<lparr>VideoId = 0, Path = []\<rparr>, Some (Error ''unexpected end of JSON input''))
                else (\<lparr>VideoId = 0, Path = []\<rparr>, Some (Error ''invalid character''))),
      filepath_Join = filepath_join,
      filepath_Glob = (\<lambda>pattern. if pattern = ''media/uploads/1/*.chunk'' then Inr chunks else Inr []),
      sort_Slice = sort_Slice_go,
      CombinedOutput = (\<lambda>argv. ([], None)),
      queue_Name = (\<lambda>q. q),
      time_Now = 0\<rparr>"

definition world0 :: "(path \<times> bytes) list \<Rightarrow> world" where
  "world0 fs =
     \<lparr>files = map_of fs, dirs = [], processed_videos = [], process_errors_log = [], trace = []\<rparr>"

text \<open>The same environment with one call failing.\<close>

definition env_fault :: "path list \<Rightarrow> syscall \<Rightarrow> error \<Rightarrow> env" where
  "env_fault chunks c err = (env0 chunks)\<lparr>fault := (\<lambda>c'. if c' = c then Some err else None)\<rparr>"

text \<open>A task directory with three chunks, listed in the order of \<^verbatim>\<open>filepath.Glob\<close>
  (lexical), and the same directory after the task was marked processed.\<close>

definition chunks3 :: "path list" where
  "chunks3 = [''media/uploads/1/1.chunk'', ''media/uploads/1/10.chunk'', ''media/uploads/1/2.chunk'']"

definition world3 :: world where
  "world3 = world0 [(''media/uploads/1/1.chunk'', ''A''), (''media/uploads/1/10.chunk'', ''C''),
                    (''media/uploads/1/2.chunk'', ''B'')]"

definition world_done :: world where
  "world_done = world3\<lparr>processed_videos :=
      [\<lparr>video_id = 1, status = ''success'', processed_at = 0\<rparr>]\<rparr>"

text \<open>The insert into \<^verbatim>\<open>processed_videos\<close> fails.\<close>

definition env_mark_fails :: env where
  "env_mark_fails = env_fault chunks3 (ExecInsertProcessed 1) (Error ''connection refused'')"

text \<open>Removing the merged file fails; publishing the confirmation fails.\<close>

definition env_remove_fails :: env where
  "env_remove_fails =
     env_fault chunks3 (Remove ''media/uploads/1/merged.mp4'') (Error ''permission denied'')"

definition env_publish_fails :: env where
  "env_publish_fails = env_fault chunks3 (Publish ''x'' ''k'') (Error ''channel closed'')"

text \<open>The store cannot be reached: the query and both inserts fail.\<close>

definition env_store_down :: env where
  "env_store_down =
     (env0 chunks3)\<lparr>fault :=
        (\<lambda>c. if c = QueryRow 1 \<or> c = ExecInsertProcessed 1 \<or> c = ExecInsertErrorLog
             then Some (Error ''connection refused'') else None)\<rparr>"

text \<open>
  Directories for the order of the merge: a chunk whose number does not fit an
  \<^verbatim>\<open>int\<close>, thirteen chunks of which the first two have the same key, a chunk
  without digits beside a number that does not fit, and a chunk without digits beside
  a small number. Each list is in the order of \<^verbatim>\<open>filepath.Glob\<close> (lexical).
\<close>

definition chunksBig :: "path list" where
  "chunksBig = [''media/uploads/1/3.chunk'', ''media/uploads/1/99999999999999999999.chunk'']"

definition worldBig :: world where
  "worldBig = world0 [(''media/uploads/1/3.chunk'', ''A''),
                      (''media/uploads/1/99999999999999999999.chunk'', ''B'')]"

definition chunks13 :: "path list" where
  "chunks13 =
     [''media/uploads/1/a50.chunk'', ''media/uploads/1/b50.chunk'', ''media/uploads/1/c1.chunk'',
      ''media/uploads/1/d2.chunk'', ''media/uploads/1/e3.chunk'', ''media/uploads/1/f4.chunk'',
      ''media/uploads/1/g10.chunk'', ''media/uploads/1/h60.chunk'', ''media/uploads/1/i61.chunk'',
      ''media/uploads/1/j62.chunk'', ''media/uploads/1/k63.chunk'', ''media/uploads/1/l64.chunk'',
      ''media/uploads/1/m65.chunk'']"

definition world13 :: world where
  "world13 = world0
     [(''media/uploads/1/a50.chunk'', ''A''), (''media/uploads/1/b50.chunk'', ''B''),
      (''media/uploads/1/c1.chunk'', ''C''), (''media/uploads/1/d2.chunk'', ''D''),
      (''media/uploads/1/e3.chunk'', ''E''), (''media/uploads/1/f4.chunk'', ''F''),
      (''media/uploads/1/g10.chunk'', ''G''), (''media/uploads/1/h60.chunk'', ''H''),
      (''media/uploads/1/i61.chunk'', ''I''), (''media/uploads/1/j62.chunk'', ''J''),
      (''media/uploads/1/k63.chunk'', ''K''), (''media/uploads/1/l64.chunk'', ''L''),
      (''media/uploads/1/m65.chunk'', ''M'')]"

definition chunksMixed :: "path list" where
  "chunksMixed = [''media/uploads/1/99999999999999999999.chunk'', ''media/uploads/1/a.chunk'']"

definition worldMixed :: world where
  "worldMixed = world0 [(''media/uploads/1/99999999999999999999.chunk'', ''N''),
                        (''media/uploads/1/a.chunk'', ''A'')]"

definition chunksLetter :: "path list" where
  "chunksLetter = [''media/uploads/1/1.chunk'', ''media/uploads/1/a.chunk'']"

definition worldLetter :: world where
  "worldLetter = world0 [(''media/uploads/1/1.chunk'', ''N''), (''media/uploads/1/a.chunk'', ''A'')]"

subsection \<open>Observations\<close>

text \<open>How often the delivery was acknowledged, and the messages published.\<close>

definition acks :: "world \<Rightarrow> nat" where
  "acks w = count_list (trace w) Ack"

fun isPublished :: "event \<Rightarrow> bool" where
  "isPublished (Published exchange routingKey message) = True"
| "isPublished ev = False"

definition confirmations :: "world \<Rightarrow> event list" where
  "confirmations w = filter isPublished (trace w)"

fun isRan :: "event \<Rightarrow> bool" where
  "isRan (Ran argv) = True"
| "isRan ev = False"

definition commands :: "world \<Rightarrow> event list" where
  "commands w = filter isRan (trace w)"

text \<open>A completion record of the video: a row with its id and the status success.\<close>

definition completionRecord :: "world \<Rightarrow> int \<Rightarrow> bool" where
  "completionRecord w videoId =
     list_ex (\<lambda>r. video_id r = videoId \<and> status r = ''success'') (processed_videos w)"

text \<open>The bytes of the files \<open>cs\<close>, one after the other.\<close>

definition contents :: "world \<Rightarrow> path list \<Rightarrow> bytes" where
  "contents w cs = concat (map (\<lambda>c. case files w c of None \<Rightarrow> [] | Some bs \<Rightarrow> bs) cs)"

text \<open>
  What \<^verbatim>\<open>sort.Slice\<close> promises for the call in \<^verbatim>\<open>mergeChunks\<close>: the slice holds the
  same paths as before, and no path is less than one that stands before it. It
  promises nothing about the order of paths that the comparison does not separate
  (the sort is not guaranteed to be stable).
\<close>

definition sort_Slice_ok :: "env \<Rightarrow> path list \<Rightarrow> bool" where
  "sort_Slice_ok e chunks =
     (mset (sort_Slice e chunkLess chunks) = mset chunks \<and>
      sorted_wrt (\<lambda>a b. \<not> chunkLess b a) (sort_Slice e chunkLess chunks))"

section \<open>The sort returns\<close>

text \<open>
  The partition steps return an index inside the range they were given, so every
  recursive call of \<^verbatim>\<open>pdqsort_func\<close> is on a shorter range and the fuel given by
  \<^verbatim>\<open>sort_Slice_go\<close> is never used up.
\<close>

lemma scanDown_ge: "min j (i - 1) \<le> scanDown lt data a i j"
  by (induction j) auto

lemma partitionLoop_bounds:
  "min j (i - 1) \<le> snd (partitionLoop lt data a i j) \<and> snd (partitionLoop lt data a i j) \<le> j"
proof (induction lt data a i j rule: partitionLoop.induct)
  case (1 lt data a i j)
  let ?i = "scanUp lt data a i j"
  let ?j = "scanDown lt data a ?i j"
  have i: "i \<le> ?i" by (rule scanUp_ge)
  have j: "?j \<le> j" "min j (?i - 1) \<le> ?j" by (rule scanDown_le, rule scanDown_ge)
  show ?case
  proof (cases "?j < ?i")
    case True
    then show ?thesis
      using i j by (subst (1 2) partitionLoop.simps) (auto simp: Let_def)
  next
    case False
    have ih: "min (?j - 1) (?i + 1 - 1) \<le> snd (partitionLoop lt (Swap data ?i ?j) a (?i + 1) (?j - 1))
        \<and> snd (partitionLoop lt (Swap data ?i ?j) a (?i + 1) (?j - 1)) \<le> ?j - 1"
      using "1.IH" [OF refl refl False] .
    show ?thesis
      using False i j ih by (subst (1 2) partitionLoop.simps) (auto simp: Let_def)
  qed
qed

lemma partition_func_bounds:
  assumes "partition_func lt data a b pivot = (d, mid, ap)" and "a < b"
  shows "a \<le> mid \<and> mid < b"
proof -
  let ?d = "Swap data a pivot"
  let ?i = "scanUp lt ?d a (a + 1) (b - 1)"
  let ?j = "scanDown lt ?d a ?i (b - 1)"
  have i: "a + 1 \<le> ?i" by (rule scanUp_ge)
  have j: "?j \<le> b - 1" "min (b - 1) (?i - 1) \<le> ?j" by (rule scanDown_le, rule scanDown_ge)
  show ?thesis
  proof (cases "?j < ?i")
    case True
    then have "mid = ?j" using assms(1) by (simp add: partition_func_def Let_def)
    moreover have "a \<le> min (b - 1) (?i - 1)" using i assms(2) by (simp add: min_def) arith
    moreover have "?j < b" using j(1) assms(2) by arith
    ultimately show ?thesis using j(2) by (meson order_trans)
  next
    case False
    then have m: "mid = snd (partitionLoop lt (Swap ?d ?i ?j) a (?i + 1) (?j - 1))"
      using assms(1) by (auto simp: partition_func_def Let_def split: prod.splits)
    have "a \<le> min (?j - 1) (?i + 1 - 1)" using i False by (simp add: min_def) arith
    moreover have "?j - 1 < b" using j(1) assms(2) by arith
    ultimately show ?thesis
      using partitionLoop_bounds [of "?j - 1" "?i + 1" lt "Swap ?d ?i ?j" a]
      unfolding m by (meson order_trans order_le_less_trans)
  qed
qed

lemma partitionEqualLoop_ge: "i \<le> snd (partitionEqualLoop lt data a i j)"
proof (induction lt data a i j rule: partitionEqualLoop.induct)
  case (1 lt data a i j)
  let ?i = "scanUpEqual lt data a i j"
  let ?j = "scanDownEqual lt data a ?i j"
  have i: "i \<le> ?i" by (rule scanUpEqual_ge)
  show ?case
  proof (cases "?j < ?i")
    case True
    then show ?thesis using i by (subst partitionEqualLoop.simps) (simp add: Let_def)
  next
    case False
    then show ?thesis
      using i "1.IH" [OF refl refl False] by (subst partitionEqualLoop.simps) (simp add: Let_def)
  qed
qed

lemma partitionEqual_func_gt:
  "partitionEqual_func lt data a b pivot = (d, mid) \<Longrightarrow> a < mid"
  using partitionEqualLoop_ge [of "a + 1" lt "Swap data a pivot" a "b - 1"]
  by (simp add: partitionEqual_func_def)

lemma pdqsort_func_returns:
  "b - a < fuel \<Longrightarrow> pdqsort_func fuel lt data a b limit wasBalanced wasPartitioned \<noteq> None"
proof (induction fuel arbitrary: data a b limit wasBalanced wasPartitioned)
  case 0
  then show ?case by simp
next
  case (Suc fuel)
  show ?case
  proof (cases "b - a \<le> 12 \<or> limit = 0")
    case True
    then show ?thesis by auto
  next
    case False
    then have ab: "a < b" by arith
    let ?d1 = "if \<not> wasBalanced then breakPatterns_func data a b else data"
    let ?limit1 = "if \<not> wasBalanced then limit - 1 else limit"
    obtain pivot0 hint0 where cp: "choosePivot_func lt ?d1 a b = (pivot0, hint0)"
      by (cases "choosePivot_func lt ?d1 a b")
    let ?d2 = "if hint0 = decreasingHint then reverseRange_func ?d1 a b else ?d1"
    let ?pivot = "if hint0 = decreasingHint then (b - 1) - (pivot0 - a) else pivot0"
    let ?hint = "if hint0 = decreasingHint then increasingHint else hint0"
    obtain d3 isSorted where ps:
      "(if wasBalanced \<and> wasPartitioned \<and> ?hint = increasingHint
        then partialInsertionSort_func lt ?d2 a b else (?d2, False)) = (d3, isSorted)"
      by (cases "if wasBalanced \<and> wasPartitioned \<and> ?hint = increasingHint
        then partialInsertionSort_func lt ?d2 a b else (?d2, False)")
    show ?thesis
    proof (cases isSorted)
      case True
      then show ?thesis using False cp ps by (simp add: Let_def)
    next
      case ns: False
      show ?thesis
      proof (cases "0 < a \<and> \<not> Less lt d3 (a - 1) ?pivot")
        case True
        obtain d4 mid where pe: "partitionEqual_func lt d3 a b ?pivot = (d4, mid)"
          by (cases "partitionEqual_func lt d3 a b ?pivot")
        have "a < mid" using pe by (rule partitionEqual_func_gt)
        then have "b - mid < fuel" using Suc.prems ab by arith
        then have "pdqsort_func fuel lt d4 mid b ?limit1 wasBalanced wasPartitioned \<noteq> None"
          by (rule Suc.IH)
        then show ?thesis using False cp ps ns True pe by (simp add: Let_def)
      next
        case np: False
        obtain d4 mid ap where pf: "partition_func lt d3 a b ?pivot = (d4, mid, ap)"
          by (cases "partition_func lt d3 a b ?pivot")
        have mb: "a \<le> mid \<and> mid < b" using pf ab by (rule partition_func_bounds)
        then have f1: "mid - a < fuel" and f2: "b - (mid + 1) < fuel"
          using Suc.prems by arith+
        have r1: "pdqsort_func fuel lt d5 a mid ?limit1 wb wp \<noteq> None" for d5 wb wp
          using f1 by (rule Suc.IH)
        have r2: "pdqsort_func fuel lt d5 (mid + 1) b ?limit1 wb wp \<noteq> None" for d5 wb wp
          using f2 by (rule Suc.IH)
        show ?thesis
        proof (cases "mid - a < b - mid")
          case True
          obtain d5 where d5: "pdqsort_func fuel lt d4 a mid ?limit1 True True = Some d5"
            using r1 by blast
          show ?thesis
            using False cp ps ns np pf True d5 r2 by (auto simp: Let_def)
        next
          case nl: False
          obtain d5 where d5: "pdqsort_func fuel lt d4 (mid + 1) b ?limit1 True True = Some d5"
            using r2 by blast
          show ?thesis
            using False cp ps ns np pf nl d5 r1 by (auto simp: Let_def)
        qed
      qed
    qed
  qed
qed

lemma sort_Slice_go_returns:
  "pdqsort_func (Suc (length data)) lt data 0 (length data) (bits_Len (length data)) True True
     = Some (sort_Slice_go lt data)"
proof -
  have "length data - 0 < Suc (length data)" by simp
  then have "pdqsort_func (Suc (length data)) lt data 0 (length data) (bits_Len (length data))
      True True \<noteq> None"
    by (rule pdqsort_func_returns)
  then obtain d where d: "pdqsort_func (Suc (length data)) lt data 0 (length data)
      (bits_Len (length data)) True True = Some d"
    by blast
  show ?thesis
    unfolding sort_Slice_go_def d by simp
qed

section \<open>What each operation leaves alone\<close>

lemma slog_fields [simp]:
  "files (slog l m w) = files w" "dirs (slog l m w) = dirs w"
  "processed_videos (slog l m w) = processed_videos w"
  "process_errors_log (slog l m w) = process_errors_log w"
  "trace (slog l m w) = trace w @ [Slog l m]"
  by (simp_all add: slog_def)

lemma emit_fields [simp]:
  "files (emit ev w) = files w" "dirs (emit ev w) = dirs w"
  "processed_videos (emit ev w) = processed_videos w"
  "process_errors_log (emit ev w) = process_errors_log w"
  "trace (emit ev w) = trace w @ [ev]"
  by (simp_all add: emit_def)

lemma appendTo_fields [simp]:
  "dirs (appendTo out bs w) = dirs w"
  "processed_videos (appendTo out bs w) = processed_videos w"
  "process_errors_log (appendTo out bs w) = process_errors_log w"
  "trace (appendTo out bs w) = trace w"
  by (simp_all add: appendTo_def)

lemma os_Create_frame:
  "os_Create e p w = (r, w') \<Longrightarrow>
     trace w' = trace w \<and> processed_videos w' = processed_videos w \<and>
     process_errors_log w' = process_errors_log w \<and> dirs w' = dirs w"
  by (auto simp: os_Create_def split: option.splits)

lemma File_ReadFrom_frame:
  "File_ReadFrom e out c bs w = (r, w') \<Longrightarrow>
     trace w' = trace w \<and> processed_videos w' = processed_videos w \<and>
     process_errors_log w' = process_errors_log w \<and> dirs w' = dirs w"
  by (auto simp: File_ReadFrom_def split: option.splits)

lemma os_MkdirAll_frame:
  "os_MkdirAll e p w = (r, w') \<Longrightarrow>
     trace w' = trace w \<and> processed_videos w' = processed_videos w \<and>
     process_errors_log w' = process_errors_log w \<and> files w' = files w"
  by (auto simp: os_MkdirAll_def split: option.splits)

lemma os_Remove_frame:
  "os_Remove e p w = (r, w') \<Longrightarrow>
     trace w' = trace w \<and> processed_videos w' = processed_videos w \<and>
     process_errors_log w' = process_errors_log w \<and> dirs w' = dirs w"
  by (auto simp: os_Remove_def split: option.splits)

lemma copyChunks_frame:
  "copyChunks e out cs w = (r, w') \<Longrightarrow>
     trace w' = trace w \<and> processed_videos w' = processed_videos w \<and>
     process_errors_log w' = process_errors_log w \<and> dirs w' = dirs w"
proof (induction cs arbitrary: w)
  case Nil
  then show ?case by simp
next
  case (Cons c cs)
  then show ?case
    by (auto split: sum.splits prod.splits option.splits dest!: File_ReadFrom_frame)
qed

lemma mergeChunks_frame:
  "mergeChunks e d out w = (r, w') \<Longrightarrow>
     trace w' = trace w \<and> processed_videos w' = processed_videos w \<and>
     process_errors_log w' = process_errors_log w \<and> dirs w' = dirs w"
  by (auto simp: mergeChunks_def Let_def split: sum.splits prod.splits option.splits
           dest!: os_Create_frame copyChunks_frame)

lemma processVideo_frame:
  "processVideo e task w = (r, w') \<Longrightarrow>
     acks w' = acks w \<and> confirmations w' = confirmations w \<and>
     processed_videos w' = processed_videos w \<and>
     process_errors_log w' = process_errors_log w"
  by (auto simp: processVideo_def Let_def exec_CombinedOutput_def acks_def confirmations_def
           split: prod.splits option.splits
           dest!: mergeChunks_frame os_MkdirAll_frame os_Remove_frame)

lemma logError_frame:
  "acks (logError e task m err w) = acks w \<and>
   confirmations (logError e task m err w) = confirmations w \<and>
   processed_videos (logError e task m err w) = processed_videos w \<and>
   files (logError e task m err w) = files w"
  by (simp add: logError_def RegisterError_def Let_def acks_def confirmations_def
           split: option.splits)

lemma MarkProcessed_frame:
  "MarkProcessed e v w = (r, w') \<Longrightarrow>
     acks w' = acks w \<and> confirmations w' = confirmations w \<and> files w' = files w \<and>
     (r \<noteq> None \<longrightarrow> processed_videos w' = processed_videos w)"
  by (auto simp: MarkProcessed_def acks_def confirmations_def split: option.splits)

lemma IsProcessed_frame:
  "IsProcessed e v w = (r, w') \<Longrightarrow>
     acks w' = acks w \<and> confirmations w' = confirmations w \<and> files w' = files w \<and>
     processed_videos w' = processed_videos w \<and> (r \<longrightarrow> w' = w)"
  by (auto simp: IsProcessed_def acks_def confirmations_def split: sum.splits)

lemma IsProcessed_errors_log:
  "IsProcessed e v w = (r, w') \<Longrightarrow> process_errors_log w' = process_errors_log w"
  by (auto simp: IsProcessed_def split: sum.splits)

lemma IsProcessed_False:
  "IsProcessed e v w = (False, w') \<Longrightarrow> fault e (QueryRow v) = None \<Longrightarrow> \<not> completionRecord w v"
  by (auto simp: IsProcessed_def QueryRow_Scan_def completionRecord_def split: sum.splits)

lemma MarkProcessed_failure:
  "MarkProcessed e v w = (Some err, w') \<Longrightarrow>
     w' = slog LevelError ''Error marking video as processed'' w"
  by (auto simp: MarkProcessed_def split: option.splits)

lemma PublishMessage_frame:
  "PublishMessage e x k q m w = (r, w') \<Longrightarrow>
     acks w' = acks w \<and> processed_videos w' = processed_videos w \<and> files w' = files w \<and>
     process_errors_log w' = process_errors_log w"
  by (auto simp: PublishMessage_def Let_def acks_def split: option.splits)

section \<open>The merged file and the two versions of the merge\<close>

lemma File_ReadFrom_keeps_output:
  "File_ReadFrom e out c bs w = (r, w') \<Longrightarrow> files w' out \<noteq> None"
  by (auto simp: File_ReadFrom_def appendTo_def split: option.splits)

lemma copyChunks_keeps_output:
  "copyChunks e out cs w = (r, w') \<Longrightarrow> files w out \<noteq> None \<Longrightarrow> files w' out \<noteq> None"
proof (induction cs arbitrary: w)
  case Nil
  then show ?case by simp
next
  case (Cons c cs)
  then show ?case
    by (auto split: sum.splits prod.splits option.splits dest: File_ReadFrom_keeps_output)
qed

lemma mergeChunks_creates:
  "mergeChunks e d out w = (None, w') \<Longrightarrow> files w' out \<noteq> None"
proof -
  assume a: "mergeChunks e d out w = (None, w')"
  then obtain chunks w1 where
    c: "os_Create e out w = (None, w1)" and
    l: "copyChunks e out (sort_Slice e chunkLess chunks) w1 = (None, w')"
    by (auto simp: mergeChunks_def Let_def split: sum.splits prod.splits option.splits)
  from c have "files w1 out \<noteq> None"
    by (auto simp: os_Create_def split: option.splits)
  with l show ?thesis by (rule copyChunks_keeps_output)
qed

lemma copyChunks_standalone_same:
  "snd (copyChunks_standalone e out cs w) = snd (copyChunks e out cs w) \<and>
   (fst (copyChunks_standalone e out cs w) = None) = (fst (copyChunks e out cs w) = None)"
  by (induction cs arbitrary: w) (auto split: sum.splits prod.splits option.splits)

lemma mergeChunks_standalone_same:
  "snd (mergeChunks_standalone e d out w) = snd (mergeChunks e d out w) \<and>
   (fst (mergeChunks_standalone e d out w) = None) = (fst (mergeChunks e d out w) = None)"
  using copyChunks_standalone_same
  by (auto simp: mergeChunks_standalone_def mergeChunks_def Let_def
           split: sum.splits prod.splits option.splits)

lemma os_MkdirAll_result:
  "fst (os_MkdirAll e p w) = fault e (MkdirAll p)"
  "files (snd (os_MkdirAll e p w)) = files w"
  by (simp_all add: os_MkdirAll_def split: option.splits)

lemma os_Remove_result:
  "(fst (os_Remove e p w) = None) = (fault e (Remove p) = None \<and> files w p \<noteq> None)"
  by (auto simp: os_Remove_def split: option.splits)

lemma os_Remove_removes:
  "os_Remove e p w = (None, w') \<Longrightarrow> files w' p = None"
  by (auto simp: os_Remove_def split: option.splits)

lemma contents_cong:
  "(\<And>c. c \<in> set cs \<Longrightarrow> files w1 c = files w c) \<Longrightarrow> contents w1 cs = contents w cs"
  by (induction cs) (simp_all add: contents_def)

lemma contents_Cons:
  "contents w (c # cs) = (case files w c of None \<Rightarrow> [] | Some bs \<Rightarrow> bs) @ contents w cs"
  by (simp add: contents_def)

lemma copyChunks_output:
  "out \<notin> set cs \<Longrightarrow> files w out = Some old \<Longrightarrow> copyChunks e out cs w = (None, w') \<Longrightarrow>
     files w' out = Some (old @ contents w cs) \<and> set cs \<subseteq> dom (files w)"
proof (induction cs arbitrary: w old)
  case Nil
  then show ?case
    by (simp add: contents_def)
next
  case (Cons c cs)
  from Cons.prems obtain content w1 where
    o: "os_Open e c w = Inr content" and
    r: "File_ReadFrom e out c content w = (None, w1)" and
    l: "copyChunks e out cs w1 = (None, w')"
    by (auto split: sum.splits prod.splits option.splits)
  have fc: "files w c = Some content"
    using o by (auto simp: os_Open_def split: option.splits)
  have w1: "w1 = appendTo out content w"
    using r by (auto simp: File_ReadFrom_def split: option.splits)
  have same: "files w1 p = files w p" if "p \<noteq> out" for p
    using that by (simp add: w1 appendTo_def)
  have out1: "files w1 out = Some (old @ content)"
    using Cons.prems(2) by (simp add: w1 appendTo_def)
  have notin: "out \<notin> set cs" using Cons.prems(1) by simp
  have ih: "files w' out = Some ((old @ content) @ contents w1 cs) \<and> set cs \<subseteq> dom (files w1)"
    using Cons.IH [OF notin out1 l] .
  have cc: "contents w1 cs = contents w cs"
    using notin by (intro contents_cong same) auto
  have dm: "set cs \<subseteq> dom (files w)"
  proof
    fix p assume p: "p \<in> set cs"
    then have "p \<noteq> out" using notin by auto
    moreover have "p \<in> dom (files w1)" using ih p by auto
    ultimately show "p \<in> dom (files w)" using same [of p] by (simp add: dom_def)
  qed
  show ?case
    using ih cc fc dm by (auto simp: contents_Cons)
qed

lemma mergeChunks_output:
  assumes "filepath_Glob e (filepath_Join e d ''*.chunk'') = Inr chunks"
      and "out \<notin> set (sort_Slice e chunkLess chunks)"
      and "mergeChunks e d out w = (None, w')"
  shows "files w' out = Some (contents w (sort_Slice e chunkLess chunks)) \<and>
         set (sort_Slice e chunkLess chunks) \<subseteq> dom (files w)"
proof -
  let ?cs = "sort_Slice e chunkLess chunks"
  obtain w1 where
    c: "os_Create e out w = (None, w1)" and
    l: "copyChunks e out ?cs w1 = (None, w')"
    using assms(1,3)
    by (auto simp: mergeChunks_def Let_def split: sum.splits prod.splits option.splits)
  have w1: "w1 = w\<lparr>files := (files w)(out \<mapsto> [])\<rparr>"
    using c by (auto simp: os_Create_def split: option.splits)
  have same: "files w1 p = files w p" if "p \<in> set ?cs" for p
    using that assms(2) by (auto simp: w1)
  have o1: "files w1 out = Some []" by (simp add: w1)
  have r: "files w' out = Some ([] @ contents w1 ?cs) \<and> set ?cs \<subseteq> dom (files w1)"
    using copyChunks_output [OF assms(2) o1 l] .
  have cc: "contents w1 ?cs = contents w ?cs"
    by (intro contents_cong same)
  have dm: "set ?cs \<subseteq> dom (files w)"
  proof
    fix p assume p: "p \<in> set ?cs"
    then have "p \<in> dom (files w1)" using r by auto
    then show "p \<in> dom (files w)" using same [OF p] by (simp add: dom_def)
  qed
  show ?thesis using r cc dm by simp
qed

lemma copyChunks_succeeds:
  "(\<And>c. c \<in> set cs \<Longrightarrow>
      files w c \<noteq> None \<and> fault e (Open c) = None \<and> fault e (ReadFrom c) = None) \<Longrightarrow>
   fst (copyChunks e out cs w) = None"
proof (induction cs arbitrary: w)
  case Nil
  then show ?case by simp
next
  case (Cons c cs)
  have c: "files w c \<noteq> None" "fault e (Open c) = None" "fault e (ReadFrom c) = None"
    using Cons.prems [of c] by simp_all
  then obtain content where fc: "files w c = Some content" by auto
  have keep: "files (appendTo out content w) p \<noteq> None" if "files w p \<noteq> None" for p
    using that by (simp add: appendTo_def)
  have "fst (copyChunks e out cs (appendTo out content w)) = None"
    by (rule Cons.IH) (use Cons.prems keep in auto)
  then show ?case
    using c fc by (simp add: os_Open_def File_ReadFrom_def)
qed

lemma mergeChunks_succeeds:
  assumes "filepath_Glob e (filepath_Join e d ''*.chunk'') = Inr chunks"
      and "fault e (Create out) = None"
      and "\<And>c. c \<in> set (sort_Slice e chunkLess chunks) \<Longrightarrow>
             files w c \<noteq> None \<and> fault e (Open c) = None \<and> fault e (ReadFrom c) = None"
  shows "fst (mergeChunks e d out w) = None"
proof -
  have "fst (copyChunks e out (sort_Slice e chunkLess chunks) (w\<lparr>files := (files w)(out \<mapsto> [])\<rparr>)) = None"
    by (rule copyChunks_succeeds) (use assms(3) in auto)
  then show ?thesis
    using assms(1,2) by (simp add: mergeChunks_def os_Create_def)
qed

lemma sort_Slice_ok_set: "sort_Slice_ok e chunks \<Longrightarrow> set (sort_Slice e chunkLess chunks) = set chunks"
  by (metis sort_Slice_ok_def set_mset_mset)

lemma sort_Slice_ok_sorted:
  "sort_Slice_ok e chunks \<Longrightarrow> sorted (map extractNumber (sort_Slice e chunkLess chunks))"
  by (simp add: sort_Slice_ok_def sorted_map chunkLess_def not_less)

lemma filter_key_singleton:
  "distinct (map f xs) \<Longrightarrow> k \<in> set xs \<Longrightarrow> filter (\<lambda>x. f k = f x) xs = [k]"
proof (induction xs)
  case Nil
  then show ?case by simp
next
  case (Cons x xs)
  show ?case
  proof (cases "k = x")
    case True
    have "filter (\<lambda>y. f x = f y) xs = []"
      using Cons.prems(1) by (auto simp: filter_empty_conv)
    then show ?thesis using True by simp
  next
    case False
    then have kx: "k \<in> set xs" using Cons.prems(2) by simp
    then have "f k \<in> f ` set xs" by simp
    moreover have "f x \<notin> f ` set xs" using Cons.prems(1) by simp
    ultimately have "f k \<noteq> f x" by auto
    then show ?thesis using Cons kx by simp
  qed
qed

lemma sorted_distinct_keys_unique:
  assumes "mset ys = mset xs" and "sorted (map f ys)" and "distinct (map f xs)"
  shows "ys = sort_key f xs"
proof -
  have dy: "distinct (map f ys)"
    by (metis assms(1,3) mset_map mset_eq_imp_distinct_iff)
  show ?thesis
  proof (rule properties_for_sort_key [symmetric])
    show "mset ys = mset xs" by (rule assms(1))
    show "sorted (map f ys)" by (rule assms(2))
    fix k assume k: "k \<in> set ys"
    then have "k \<in> set xs" using assms(1) by (metis mset_eq_setD)
    then show "filter (\<lambda>x. f k = f x) ys = filter (\<lambda>x. f k = f x) xs"
      using filter_key_singleton [OF dy k] filter_key_singleton [OF assms(3)] by simp
  qed
qed

section \<open>The key of a chunk\<close>

lemma isDigit_sign [simp]: "\<not> isDigit CHR ''-''" "\<not> isDigit CHR ''+''"
  by (simp_all add: isDigit_def)

lemma FindString_digits_all: "list_all isDigit (FindString_digits s)"
  by (auto simp: FindString_digits_def list_all_iff dest: set_takeWhileD)

lemma Atoi_digits:
  assumes "list_all isDigit ds"
  shows "Atoi ds = (if ds = [] then Inl (Error ''invalid syntax'')
                    else if maxInt < decimal ds then Inl (Error ''value out of range'')
                    else Inr (int (decimal ds)))"
proof (cases ds)
  case Nil
  then show ?thesis by (simp add: Atoi_def)
next
  case (Cons d ds')
  then have "isDigit d" using assms by simp
  then have "d \<noteq> CHR ''-''" "d \<noteq> CHR ''+''" by auto
  then show ?thesis using Cons assms by (simp add: Atoi_def Let_def)
qed

lemma extractNumber_value:
  "extractNumber c =
     (let ds = FindString_digits (filepath_Base c)
      in if ds \<noteq> [] \<and> decimal ds \<le> maxInt then int (decimal ds) else - 1)"
  by (simp add: extractNumber_def Let_def Atoi_digits [OF FindString_digits_all])

lemma extractNumber_ge: "- 1 \<le> extractNumber c"
  by (simp add: extractNumber_value Let_def)

lemma FindString_digits_none:
  assumes "\<not> list_ex isDigit s"
  shows "FindString_digits s = []"
proof -
  have d: "dropWhile (\<lambda>c. \<not> isDigit c) s = []"
    using assms by (induction s) auto
  show ?thesis by (simp only: FindString_digits_def d takeWhile.simps)
qed

section \<open>Evaluating the concrete runs\<close>

lemma partialLoop_numeral:
  "partialLoop (numeral n) lt data a b i =
     (let i' = skipSorted lt data i b
      in if i' = b then (data, True)
         else if b - a < 50 then (data, False)
         else (let d1 = Swap data i' (i' - 1);
                   d2 = (if 2 \<le> i' - a then shiftLeft lt d1 (i' - 1) else d1);
                   d3 = (if 2 \<le> b - i' then shiftRight lt d2 (i' + 1) b else d2)
               in partialLoop (pred_numeral n) lt d3 a b i'))"
  by (simp add: numeral_eq_Suc)

lemma scanDown_numeral:
  "scanDown lt data a i (numeral n) =
     (if i \<le> numeral n \<and> \<not> Less lt data (numeral n) a
      then scanDown lt data a i (pred_numeral n) else numeral n)"
  by (simp add: numeral_eq_Suc)

lemma insertDown_numeral:
  "insertDown lt data a (numeral n) =
     (if a < numeral n \<and> Less lt data (numeral n) (pred_numeral n)
      then insertDown lt (Swap data (numeral n) (pred_numeral n)) a (pred_numeral n) else data)"
  by (simp add: numeral_eq_Suc)

lemmas sort_eval = partialLoop_numeral scanDown_numeral insertDown_numeral
  sort_Slice_go_def insertionSort_func_def Swap_def Less_def
  choosePivot_func_def median_func_def order2_func_def
  partialInsertionSort_func_def partition_func_def
  scanUp.simps partitionLoop.simps skipSorted.simps Let_def

lemmas key_eval = extractNumber_def FindString_digits_def filepath_Base_def Atoi_def isDigit_def
  decimal_def digitVal_def maxInt_def

lemma filepath_join_runs [simp]:
  "filepath_join ''media/uploads/1'' ''merged.mp4'' = ''media/uploads/1/merged.mp4''"
  "filepath_join ''media/uploads/1'' ''mpeg-dash'' = ''media/uploads/1/mpeg-dash''"
  "filepath_join ''media/uploads/1/mpeg-dash'' ''output.mpd'' = ''media/uploads/1/mpeg-dash/output.mpd''"
  "filepath_join ''media/uploads/1'' ''*.chunk'' = ''media/uploads/1/*.chunk''"
  by (simp_all add: filepath_join_def filepath_Clean_def cleanElem_def)

lemma env0_simps [simp]:
  "fault (env0 cs) = (\<lambda>c. None)"
  "json_Unmarshal (env0 cs) body1 = (task1, None)"
  "filepath_Join (env0 cs) = filepath_join"
  "filepath_Glob (env0 cs) ''media/uploads/1/*.chunk'' = Inr cs"
  "sort_Slice (env0 cs) = sort_Slice_go"
  "CombinedOutput (env0 cs) = (\<lambda>argv. ([], None))"
  "queue_Name (env0 cs) = (\<lambda>q. q)"
  "time_Now (env0 cs) = 0"
  "copied_before_fault (env0 cs) = (\<lambda>p. 0)"
  by (simp_all add: env0_def)

lemma env_fault_simps [simp]:
  "fault (env_fault cs c err) = (\<lambda>c'. if c' = c then Some err else None)"
  "json_Unmarshal (env_fault cs c err) body1 = (task1, None)"
  "filepath_Join (env_fault cs c err) = filepath_join"
  "filepath_Glob (env_fault cs c err) ''media/uploads/1/*.chunk'' = Inr cs"
  "sort_Slice (env_fault cs c err) = sort_Slice_go"
  "CombinedOutput (env_fault cs c err) = (\<lambda>argv. ([], None))"
  "queue_Name (env_fault cs c err) = (\<lambda>q. q)"
  "time_Now (env_fault cs c err) = 0"
  "copied_before_fault (env_fault cs c err) = (\<lambda>p. 0)"
  by (simp_all add: env_fault_def env0_def)

lemma task1_simps [simp]: "VideoId task1 = 1" "Path task1 = ''media/uploads/1''"
  by (simp_all add: task1_def)

lemma world0_simps [simp]:
  "files (world0 fs) = map_of fs" "dirs (world0 fs) = []" "processed_videos (world0 fs) = []"
  "process_errors_log (world0 fs) = []" "trace (world0 fs) = []"
  by (simp_all add: world0_def)

lemma keys3:
  "extractNumber ''media/uploads/1/1.chunk'' = 1"
  "extractNumber ''media/uploads/1/10.chunk'' = 10"
  "extractNumber ''media/uploads/1/2.chunk'' = 2"
  by (simp_all add: key_eval)

lemma sorted3:
  "sort_Slice_go chunkLess chunks3 =
     [''media/uploads/1/1.chunk'', ''media/uploads/1/2.chunk'', ''media/uploads/1/10.chunk'']"
  "sort_Slice_go chunkLess (rev chunks3) =
     [''media/uploads/1/1.chunk'', ''media/uploads/1/2.chunk'', ''media/uploads/1/10.chunk'']"
  by (simp_all add: sort_eval chunks3_def chunkLess_def keys3)

lemmas run_eval = mergeChunks_def os_Create_def os_Open_def File_ReadFrom_def
  appendTo_def os_MkdirAll_def exec_CombinedOutput_def os_Remove_def slog_def emit_def
  mergedFile_def mpegDashPath_def ffmpegCmd_def

lemma merge3:
  "fst (mergeChunks (env0 chunks3) ''media/uploads/1'' ''media/uploads/1/merged.mp4'' world3) = None"
  "files (snd (mergeChunks (env0 chunks3) ''media/uploads/1'' ''media/uploads/1/merged.mp4'' world3))
      ''media/uploads/1/merged.mp4'' = Some ''ABC''"
  by (simp_all add: run_eval sorted3 world3_def)

lemma keys_more:
  "extractNumber ''media/uploads/1/3.chunk'' = 3"
  "extractNumber ''media/uploads/1/99999999999999999999.chunk'' = - 1"
  "extractNumber ''media/uploads/1/a.chunk'' = - 1"
  by (simp_all add: key_eval)

lemma digits_more:
  "FindString_digits (filepath_Base ''media/uploads/1/3.chunk'') = ''3''"
  "FindString_digits (filepath_Base ''media/uploads/1/99999999999999999999.chunk'')
     = ''99999999999999999999''"
  "FindString_digits (filepath_Base ''media/uploads/1/a.chunk'') = []"
  "decimal ''3'' = 3"
  "decimal ''99999999999999999999'' = 99999999999999999999"
  by (simp_all add: key_eval)

lemma keys13:
  "extractNumber ''media/uploads/1/a50.chunk'' = 50"
  "extractNumber ''media/uploads/1/b50.chunk'' = 50"
  "extractNumber ''media/uploads/1/c1.chunk'' = 1"
  "extractNumber ''media/uploads/1/d2.chunk'' = 2"
  "extractNumber ''media/uploads/1/e3.chunk'' = 3"
  "extractNumber ''media/uploads/1/f4.chunk'' = 4"
  "extractNumber ''media/uploads/1/g10.chunk'' = 10"
  "extractNumber ''media/uploads/1/h60.chunk'' = 60"
  "extractNumber ''media/uploads/1/i61.chunk'' = 61"
  "extractNumber ''media/uploads/1/j62.chunk'' = 62"
  "extractNumber ''media/uploads/1/k63.chunk'' = 63"
  "extractNumber ''media/uploads/1/l64.chunk'' = 64"
  "extractNumber ''media/uploads/1/m65.chunk'' = 65"
  by (simp_all add: key_eval)

lemma sorted13:
  "sort_Slice_go chunkLess chunks13 =
     [''media/uploads/1/c1.chunk'', ''media/uploads/1/d2.chunk'', ''media/uploads/1/e3.chunk'',
      ''media/uploads/1/f4.chunk'', ''media/uploads/1/g10.chunk'', ''media/uploads/1/b50.chunk'',
      ''media/uploads/1/a50.chunk'', ''media/uploads/1/h60.chunk'', ''media/uploads/1/i61.chunk'',
      ''media/uploads/1/j62.chunk'', ''media/uploads/1/k63.chunk'', ''media/uploads/1/l64.chunk'',
      ''media/uploads/1/m65.chunk'']"
  by (simp add: sort_eval chunks13_def chunkLess_def keys13)

lemma sorted_more:
  "sort_Slice_go chunkLess chunksBig =
     [''media/uploads/1/99999999999999999999.chunk'', ''media/uploads/1/3.chunk'']"
  "sort_Slice_go chunkLess chunksMixed =
     [''media/uploads/1/99999999999999999999.chunk'', ''media/uploads/1/a.chunk'']"
  "sort_Slice_go chunkLess chunksLetter =
     [''media/uploads/1/a.chunk'', ''media/uploads/1/1.chunk'']"
  by (simp_all add: sort_eval chunksBig_def chunksMixed_def chunksLetter_def chunkLess_def
        keys_more keys3)

lemma contents_append: "contents w (xs @ ys) = contents w xs @ contents w ys"
  by (simp add: contents_def)

section \<open>The acknowledgment contract\<close>

text \<open>
  Claim C1. For every inbound delivery, \<^verbatim>\<open>Handle\<close> acknowledges the message in exactly
  two cases: the idempotency check reports the video already processed, or the
  pipeline succeeded and the following \<^verbatim>\<open>MarkProcessed\<close> write succeeded. In every other
  outcome (the body cannot be decoded, the pipeline fails, \<^verbatim>\<open>MarkProcessed\<close> fails) it
  returns with no acknowledgment. In the two cases it acknowledges once.
\<close>

theorem Handle_acknowledges_iff:
  "acks (Handle e body x k q w) =
     (let (task, uerr) = json_Unmarshal e body;
          (dup, w1) = IsProcessed e (VideoId task) w;
          (perr, w2) = processVideo e task w1;
          (merr, w3) = MarkProcessed e (VideoId task) w2
      in if uerr = None \<and> (dup \<or> (perr = None \<and> merr = None)) then acks w + 1 else acks w)"
proof -
  obtain task uerr where u: "json_Unmarshal e body = (task, uerr)" by (cases "json_Unmarshal e body")
  obtain dup w1 where i: "IsProcessed e (VideoId task) w = (dup, w1)" by (cases "IsProcessed e (VideoId task) w")
  obtain perr w2 where p: "processVideo e task w1 = (perr, w2)" by (cases "processVideo e task w1")
  obtain merr w3 where m: "MarkProcessed e (VideoId task) w2 = (merr, w3)" by (cases "MarkProcessed e (VideoId task) w2")
  have a1: "acks w1 = acks w" using IsProcessed_frame [OF i] by simp
  have a2: "acks w2 = acks w" using processVideo_frame [OF p] a1 by simp
  have a3: "acks w3 = acks w" using MarkProcessed_frame [OF m] a2 by simp
  show ?thesis
  proof (cases uerr)
    case (Some err)
    then show ?thesis using u by (simp add: Handle_def logError_frame)
  next
    case None
    show ?thesis
    proof (cases dup)
      case True
      then show ?thesis using u None i a1 by (simp add: Handle_def acks_def)
    next
      case False
      show ?thesis
      proof (cases perr)
        case (Some err)
        then show ?thesis using u None i False p a2 by (simp add: Handle_def logError_frame)
      next
        case pn: None
        show ?thesis
        proof (cases merr)
          case (Some err)
          then show ?thesis using u None i False p pn m a3 by (simp add: Handle_def logError_frame)
        next
          case mn: None
          obtain r w5 where pm: "PublishMessage e x k q (confirmationMessage task)
              (slog LevelInfo ''Video marked as processed'' (emit Ack w3)) = (r, w5)"
            by (cases "PublishMessage e x k q (confirmationMessage task)
              (slog LevelInfo ''Video marked as processed'' (emit Ack w3))")
          have "acks w5 = acks w + 1"
            using PublishMessage_frame [OF pm] a3 by (simp add: acks_def)
          then show ?thesis using u None i False p pn m mn pm by (simp add: Handle_def)
        qed
      qed
    qed
  qed
qed

section \<open>Duplicate deliveries\<close>

text \<open>
  Claim C2. For every job whose videoId the idempotency store reports as already
  processed, \<^verbatim>\<open>Handle\<close> acknowledges the message and returns: it logs the warning and
  acknowledges, and nothing else happens. No command is run and no file is touched
  (no merge, no transcode), no processed record is inserted and no confirmation
  message is published.
\<close>

theorem Handle_duplicate:
  assumes "json_Unmarshal e body = (task, None)"
      and "fst (IsProcessed e (VideoId task) w)"
  shows "Handle e body x k q w =
           w\<lparr>trace := trace w @ [Slog LevelWarn ''Video already processed'', Ack]\<rparr>
       \<and> acks (Handle e body x k q w) = acks w + 1
       \<and> commands (Handle e body x k q w) = commands w
       \<and> files (Handle e body x k q w) = files w
       \<and> processed_videos (Handle e body x k q w) = processed_videos w
       \<and> confirmations (Handle e body x k q w) = confirmations w"
proof -
  obtain w1 where i: "IsProcessed e (VideoId task) w = (True, w1)"
    using assms(2) by (cases "IsProcessed e (VideoId task) w") auto
  have "w1 = w" using IsProcessed_frame [OF i] by simp
  then have h: "Handle e body x k q w =
      w\<lparr>trace := trace w @ [Slog LevelWarn ''Video already processed'', Ack]\<rparr>"
    using assms(1) i by (simp add: Handle_def emit_def slog_def)
  show ?thesis
    unfolding h by (simp add: acks_def commands_def confirmations_def)
qed

theorem Handle_duplicate_witness:
  "json_Unmarshal (env0 chunks3) body1 = (task1, None)
   \<and> fst (IsProcessed (env0 chunks3) (VideoId task1) world_done)
   \<and> Handle (env0 chunks3) body1 ''x'' ''k'' ''q'' world_done =
       world_done\<lparr>trace := [Slog LevelWarn ''Video already processed'', Ack]\<rparr>
   \<and> acks (Handle (env0 chunks3) body1 ''x'' ''k'' ''q'' world_done) = 1
   \<and> commands (Handle (env0 chunks3) body1 ''x'' ''k'' ''q'' world_done) = []
   \<and> confirmations (Handle (env0 chunks3) body1 ''x'' ''k'' ''q'' world_done) = []"
proof -
  have u: "json_Unmarshal (env0 chunks3) body1 = (task1, None)" by simp
  have d: "fst (IsProcessed (env0 chunks3) (VideoId task1) world_done)"
    by (simp add: IsProcessed_def QueryRow_Scan_def world_done_def)
  have t: "trace world_done = []"
    by (simp add: world_done_def world3_def)
  show ?thesis
    using Handle_duplicate [OF u d, of "''x''" "''k''" "''q''"] u d
    by (simp add: t acks_def commands_def confirmations_def)
qed

section \<open>A failed completion record\<close>




section \<open>The idempotency check\<close>

text \<open>
  Claim C7. For every videoId, if the existence query against \<^verbatim>\<open>processed_videos\<close>
  returns a storage error, \<^verbatim>\<open>IsProcessed\<close> logs the error and returns false (the video
  counts as not processed). It returns true only when the query succeeds and a row
  with that videoId and the status success exists.
\<close>

theorem IsProcessed_conservative:
  "(fault e (QueryRow videoId) = Some err \<longrightarrow>
      IsProcessed e videoId w =
        (False, w\<lparr>trace := trace w @ [Slog LevelError ''error checking if video is processed'']\<rparr>))
   \<and> (fst (IsProcessed e videoId w) \<longleftrightarrow>
        fault e (QueryRow videoId) = None \<and>
        (\<exists>r \<in> set (processed_videos w). video_id r = videoId \<and> status r = ''success''))"
  by (auto simp: IsProcessed_def QueryRow_Scan_def slog_def list_ex_iff split: option.splits)

theorem IsProcessed_conservative_witness:
  "IsProcessed (env_fault [] (QueryRow 1) (Error ''connection refused'')) 1 world_done =
     (False, world_done\<lparr>trace := [Slog LevelError ''error checking if video is processed'']\<rparr>)
   \<and> fst (IsProcessed (env0 []) 1 world_done)
   \<and> \<not> fst (IsProcessed (env0 []) 2 world_done)"
proof -
  have t: "trace world_done = []" "processed_videos world_done = [\<lparr>video_id = 1, status = ''success'', processed_at = 0\<rparr>]"
    by (simp_all add: world_done_def world3_def)
  show ?thesis
    using IsProcessed_conservative [of "env_fault [] (QueryRow 1) (Error ''connection refused'')" 1
            "Error ''connection refused''" world_done]
          IsProcessed_conservative [of "env0 []" 1 "Error []" world_done]
          IsProcessed_conservative [of "env0 []" 2 "Error []" world_done] t
    by simp
qed

section \<open>Cleaning up after the conversion\<close>



section \<open>The two versions of the pipeline\<close>

text \<open>
  Claim C10, as stated: the standalone and the RabbitMQ-integrated \<^verbatim>\<open>processVideo\<close>
  return an error for the same tasks. It fails when removing the merged file fails
  after a successful conversion: the integrated version logs a warning and returns
  \<^verbatim>\<open>nil\<close>, the standalone version returns the error of \<^verbatim>\<open>os.Remove\<close>.
\<close>

theorem processVideo_versions_counterexample:
  "fst (processVideo env_remove_fails task1 world3) = None
   \<and> fst (processVideo_standalone env_remove_fails task1 world3) = Some (Error ''permission denied'')"
  by (simp add: env_remove_fails_def processVideo_def processVideo_standalone_def
        mergeChunks_standalone_def run_eval sorted3 world3_def)

text \<open>
  Claim C10, amended. The standalone \<^verbatim>\<open>processVideo\<close> succeeds exactly when the
  integrated one succeeds and removing the merged file does not fail. So an error of
  the integrated version is an error of the standalone version, and the two outcomes
  differ only when the removal fails after a successful conversion.
\<close>

theorem processVideo_standalone_outcome:
  "(fst (processVideo_standalone e task w) = None) =
     (fst (processVideo e task w) = None \<and> fault e (Remove (mergedFile e task)) = None)"
proof -
  let ?w0 = "slog LevelInfo ''Merging chunks'' w"
  obtain r1 w1 where m: "mergeChunks e (Path task) (mergedFile e task) ?w0 = (r1, w1)"
    by (cases "mergeChunks e (Path task) (mergedFile e task) ?w0")
  obtain r1' where ms: "mergeChunks_standalone e (Path task) (mergedFile e task) ?w0 = (r1', w1)"
      and rr: "(r1' = None) = (r1 = None)"
    using mergeChunks_standalone_same [of e "Path task" "mergedFile e task" ?w0] m
    by (cases "mergeChunks_standalone e (Path task) (mergedFile e task) ?w0") auto
  show ?thesis
  proof (cases r1)
    case (Some err)
    then show ?thesis using m ms rr
      by (auto simp: processVideo_def processVideo_standalone_def)
  next
    case None
    then have r1n: "r1' = None" using rr by simp
    have ex: "files w1 (mergedFile e task) \<noteq> None"
      using mergeChunks_creates m None by blast
    show ?thesis
    proof (cases "fault e (MkdirAll (mpegDashPath e task))")
      case (Some err)
      then show ?thesis
        using m ms None r1n
        by (simp add: processVideo_def processVideo_standalone_def os_MkdirAll_def)
    next
      case dn: None
      obtain outp cr where c: "CombinedOutput e (ffmpegCmd e task) = (outp, cr)"
        by (cases "CombinedOutput e (ffmpegCmd e task)")
      show ?thesis
      proof (cases cr)
        case (Some err)
        then show ?thesis
          using m ms None r1n dn c
          by (simp add: processVideo_def processVideo_standalone_def os_MkdirAll_def
                exec_CombinedOutput_def)
      next
        case cn: None
        show ?thesis
          using m ms None r1n dn c cn ex
          by (auto simp: processVideo_def processVideo_standalone_def os_MkdirAll_def
                exec_CombinedOutput_def os_Remove_def Let_def split: option.splits)
      qed
    qed
  qed
qed

section \<open>A confirmation that cannot be published\<close>

text \<open>
  Claim C6 says that a failure to publish the confirmation leaves the message
  acknowledged and the processed record in place, and that the failure is surfaced as
  a non-fatal error. The run below has a successful pipeline and a successful
  \<^verbatim>\<open>MarkProcessed\<close>, and \<^verbatim>\<open>channel.Publish\<close> fails. \<^verbatim>\<open>PublishMessage\<close> returns the
  error; \<^verbatim>\<open>Handle\<close> acknowledges and keeps the record, and then drops the error: the
  trace ends with the channel declarations, no \<^verbatim>\<open>slog\<close> record mentions the failure
  and \<^verbatim>\<open>process_errors_log\<close> stays empty.
\<close>

theorem Handle_publish_failure_unreported:
  "fst (PublishMessage env_publish_fails ''x'' ''k'' ''q'' (confirmationMessage task1) world3)
     = Some (Error ''failed to publish messages: channel closed'')
   \<and> trace (Handle env_publish_fails body1 ''x'' ''k'' ''q'' world3) =
       [Slog LevelInfo ''Merging chunks'',
        Ran [''ffmpeg'', ''-i'', ''media/uploads/1/merged.mp4'', ''-f'', ''dash'',
             ''media/uploads/1/mpeg-dash/output.mpd''],
        Slog LevelInfo ''Converted to MPEG-DASH'',
        Slog LevelInfo ''Removed merged file'',
        Ack,
        Slog LevelInfo ''Video marked as processed'',
        ExchangeDeclared ''x'', QueueDeclared ''q'', QueueBound ''q'' ''k'' ''x'']
   \<and> process_errors_log (Handle env_publish_fails body1 ''x'' ''k'' ''q'' world3) = []
   \<and> processed_videos (Handle env_publish_fails body1 ''x'' ''k'' ''q'' world3) =
       [\<lparr>video_id = 1, status = ''success'', processed_at = 0\<rparr>]"
  by (simp add: env_publish_fails_def Handle_def IsProcessed_def QueryRow_Scan_def
        MarkProcessed_def PublishMessage_def processVideo_def run_eval sorted3 world3_def Let_def)

section \<open>The order of the merge\<close>

text \<open>
  Claim C3, as stated: the merged file is the concatenation of the chunks in ascending
  order of the numeric value of the first run of digits in each filename. It fails
  for a number that does not fit an \<^verbatim>\<open>int\<close>: \<^verbatim>\<open>strconv.Atoi\<close> returns a range error
  and \<^verbatim>\<open>extractNumber\<close> answers -1. With the chunks 3 (content A) and
  99999999999999999999 (content B) the merged file is BA, not AB.
\<close>

theorem mergeChunks_numeric_order_counterexample:
  "decimal (FindString_digits (filepath_Base ''media/uploads/1/3.chunk'')) = 3
   \<and> decimal (FindString_digits (filepath_Base ''media/uploads/1/99999999999999999999.chunk''))
       = 99999999999999999999
   \<and> files worldBig ''media/uploads/1/3.chunk'' = Some ''A''
   \<and> files worldBig ''media/uploads/1/99999999999999999999.chunk'' = Some ''B''
   \<and> mergeChunks (env0 chunksBig) ''media/uploads/1'' ''media/uploads/1/merged.mp4'' worldBig =
       (None, worldBig\<lparr>files := (files worldBig)(''media/uploads/1/merged.mp4'' \<mapsto> ''BA'')\<rparr>)"
  by (simp add: digits_more) (simp add: run_eval sorted_more worldBig_def)

text \<open>
  Claim C3, amended. When \<^verbatim>\<open>mergeChunks\<close> returns \<^verbatim>\<open>nil\<close> (and the output file is not one
  of the chunks), the merged file is the concatenation of the contents of all chunks
  in ascending order of the key of \<^verbatim>\<open>extractNumber\<close>. The key is the numeric value of
  the first run of digits in the filename when that value is at most \<open>2^63 - 1\<close>, and
  -1 otherwise (no digits, or out of range). The witness merges the chunks 1, 10, 2
  in the order 1, 2, 10.
\<close>

theorem mergeChunks_ascending_keys:
  assumes "filepath_Glob e (filepath_Join e inputDir ''*.chunk'') = Inr chunks"
      and "sort_Slice_ok e chunks"
      and "outputFile \<notin> set chunks"
      and "mergeChunks e inputDir outputFile w = (None, w')"
  shows "mset (sort_Slice e chunkLess chunks) = mset chunks
       \<and> sorted (map extractNumber (sort_Slice e chunkLess chunks))
       \<and> files w' outputFile = Some (contents w (sort_Slice e chunkLess chunks))
       \<and> set chunks \<subseteq> dom (files w)
       \<and> extractNumber c =
           (let ds = FindString_digits (filepath_Base c)
            in if ds \<noteq> [] \<and> decimal ds \<le> maxInt then int (decimal ds) else - 1)"
proof -
  have s: "set (sort_Slice e chunkLess chunks) = set chunks"
    using assms(2) by (rule sort_Slice_ok_set)
  then have n: "outputFile \<notin> set (sort_Slice e chunkLess chunks)"
    using assms(3) by simp
  have m: "mset (sort_Slice e chunkLess chunks) = mset chunks"
    using assms(2) by (simp add: sort_Slice_ok_def)
  show ?thesis
    using mergeChunks_output [OF assms(1) n assms(4)] sort_Slice_ok_sorted [OF assms(2)] m s
          extractNumber_value [of c]
    by simp
qed

theorem mergeChunks_ascending_keys_witness:
  "sort_Slice_ok (env0 chunks3) chunks3
   \<and> fst (mergeChunks (env0 chunks3) ''media/uploads/1'' ''media/uploads/1/merged.mp4'' world3) = None
   \<and> sort_Slice (env0 chunks3) chunkLess chunks3 =
       [''media/uploads/1/1.chunk'', ''media/uploads/1/2.chunk'', ''media/uploads/1/10.chunk'']
   \<and> files (snd (mergeChunks (env0 chunks3) ''media/uploads/1'' ''media/uploads/1/merged.mp4'' world3))
        ''media/uploads/1/merged.mp4'' = Some ''ABC''
   \<and> extractNumber ''media/uploads/1/10.chunk'' = 10"
proof -
  let ?e = "env0 chunks3"
  let ?out = "''media/uploads/1/merged.mp4''"
  have g: "filepath_Glob ?e (filepath_Join ?e ''media/uploads/1'' ''*.chunk'') = Inr chunks3"
    by simp
  have ok: "sort_Slice_ok ?e chunks3"
    by (simp add: sort_Slice_ok_def sorted3) (simp add: chunks3_def chunkLess_def keys3)
  have n: "?out \<notin> set chunks3"
    by (simp add: chunks3_def)
  have f: "fst (mergeChunks ?e ''media/uploads/1'' ?out world3) = None"
    by (rule merge3)
  then have m: "mergeChunks ?e ''media/uploads/1'' ?out world3 =
      (None, snd (mergeChunks ?e ''media/uploads/1'' ?out world3))"
    by (metis prod.collapse)
  have c: "contents world3
      [''media/uploads/1/1.chunk'', ''media/uploads/1/2.chunk'', ''media/uploads/1/10.chunk''] = ''ABC''"
    by (simp add: contents_def world3_def)
  show ?thesis
    using mergeChunks_ascending_keys [OF g ok n m, of "''media/uploads/1/10.chunk''"] ok f c
    by (simp add: sorted3 keys3)
qed

section \<open>Chunks with equal keys\<close>

text \<open>
  Claim C5, as stated: two chunks with the same key keep their discovery order in the
  merged file (the sort is stable). \<^verbatim>\<open>mergeChunks\<close> orders the chunks with
  \<^verbatim>\<open>sort.Slice\<close> alone, which is not guaranteed to be stable. Of the thirteen chunks
  below the first two discovered, a50 (content A) and b50 (content B), have the key
  50. The partition step of \<^verbatim>\<open>pdqsort_func\<close> exchanges them, and the merged file holds B
  before A.
\<close>

theorem mergeChunks_tie_order_counterexample:
  "extractNumber ''media/uploads/1/a50.chunk'' = extractNumber ''media/uploads/1/b50.chunk''
   \<and> filepath_Glob (env0 chunks13) ''media/uploads/1/*.chunk'' = Inr chunks13
   \<and> take 2 chunks13 = [''media/uploads/1/a50.chunk'', ''media/uploads/1/b50.chunk'']
   \<and> sort_Slice_ok (env0 chunks13) chunks13
   \<and> sort_Slice (env0 chunks13) chunkLess chunks13 =
       [''media/uploads/1/c1.chunk'', ''media/uploads/1/d2.chunk'', ''media/uploads/1/e3.chunk'',
        ''media/uploads/1/f4.chunk'', ''media/uploads/1/g10.chunk'', ''media/uploads/1/b50.chunk'',
        ''media/uploads/1/a50.chunk'', ''media/uploads/1/h60.chunk'', ''media/uploads/1/i61.chunk'',
        ''media/uploads/1/j62.chunk'', ''media/uploads/1/k63.chunk'', ''media/uploads/1/l64.chunk'',
        ''media/uploads/1/m65.chunk'']
   \<and> files world13 ''media/uploads/1/a50.chunk'' = Some ''A''
   \<and> files world13 ''media/uploads/1/b50.chunk'' = Some ''B''
   \<and> fst (mergeChunks (env0 chunks13) ''media/uploads/1'' ''media/uploads/1/merged.mp4'' world13)
       = None
   \<and> files (snd (mergeChunks (env0 chunks13) ''media/uploads/1'' ''media/uploads/1/merged.mp4''
                   world13)) ''media/uploads/1/merged.mp4'' = Some ''CDEFGBAHIJKLM''"
proof -
  have ok: "sort_Slice_ok (env0 chunks13) chunks13"
    by (simp add: sort_Slice_ok_def sorted13) (simp add: chunks13_def chunkLess_def keys13)
  have t: "take 2 chunks13 = [''media/uploads/1/a50.chunk'', ''media/uploads/1/b50.chunk'']"
    by (simp add: chunks13_def)
  have m: "fst (mergeChunks (env0 chunks13) ''media/uploads/1'' ''media/uploads/1/merged.mp4'' world13)
             = None"
          "files (snd (mergeChunks (env0 chunks13) ''media/uploads/1'' ''media/uploads/1/merged.mp4''
                   world13)) ''media/uploads/1/merged.mp4'' = Some ''CDEFGBAHIJKLM''"
    by (simp_all add: run_eval sorted13 world13_def)
  have f: "files world13 ''media/uploads/1/a50.chunk'' = Some ''A''"
          "files world13 ''media/uploads/1/b50.chunk'' = Some ''B''"
    by (simp_all add: world13_def)
  show ?thesis
    using ok t m f by (simp add: keys13 sorted13)
qed

text \<open>
  Claim C5, amended. When no two discovered chunks have the same key, the order of the
  merge is the one ascending order of the keys: it is the same for every discovery
  order of these chunks and every sorted permutation \<^verbatim>\<open>sort.Slice\<close> may return, and the
  merged file is the concatenation in that order. Nothing is said about the relative
  order of chunks with equal keys.
\<close>

theorem mergeChunks_distinct_keys:
  assumes "filepath_Glob e (filepath_Join e inputDir ''*.chunk'') = Inr chunks"
      and "sort_Slice_ok e chunks"
      and "outputFile \<notin> set chunks"
      and "mergeChunks e inputDir outputFile w = (None, w')"
      and "distinct (map extractNumber chunks)"
  shows "sort_Slice e chunkLess chunks = sort_key extractNumber chunks
       \<and> files w' outputFile = Some (contents w (sort_key extractNumber chunks))
       \<and> (mset chunks' = mset chunks \<and> sort_Slice_ok e' chunks' \<longrightarrow>
            sort_Slice e' chunkLess chunks' = sort_Slice e chunkLess chunks)"
proof -
  have m: "mset (sort_Slice e chunkLess chunks) = mset chunks"
    using assms(2) by (simp add: sort_Slice_ok_def)
  have u: "sort_Slice e chunkLess chunks = sort_key extractNumber chunks"
    using m sort_Slice_ok_sorted [OF assms(2)] assms(5) by (rule sorted_distinct_keys_unique)
  have n: "outputFile \<notin> set (sort_Slice e chunkLess chunks)"
    using assms(2,3) by (simp add: sort_Slice_ok_set)
  have f: "files w' outputFile = Some (contents w (sort_key extractNumber chunks))"
    using mergeChunks_output [OF assms(1) n assms(4)] u by simp
  have o: "sort_Slice e' chunkLess chunks' = sort_Slice e chunkLess chunks"
    if p: "mset chunks' = mset chunks" and ok: "sort_Slice_ok e' chunks'"
  proof -
    have "mset (sort_Slice e' chunkLess chunks') = mset chunks"
      using ok p by (simp add: sort_Slice_ok_def)
    then have "sort_Slice e' chunkLess chunks' = sort_key extractNumber chunks"
      using sort_Slice_ok_sorted [OF ok] assms(5) by (rule sorted_distinct_keys_unique)
    then show ?thesis using u by simp
  qed
  show ?thesis using u f o by blast
qed

theorem mergeChunks_distinct_keys_witness:
  "sort_Slice_ok (env0 chunks3) chunks3
   \<and> distinct (map extractNumber chunks3)
   \<and> mset (rev chunks3) = mset chunks3
   \<and> sort_Slice_ok (env0 (rev chunks3)) (rev chunks3)
   \<and> sort_Slice (env0 (rev chunks3)) chunkLess (rev chunks3)
       = sort_Slice (env0 chunks3) chunkLess chunks3
   \<and> sort_Slice (env0 chunks3) chunkLess chunks3 = sort_key extractNumber chunks3
   \<and> files (snd (mergeChunks (env0 chunks3) ''media/uploads/1'' ''media/uploads/1/merged.mp4'' world3))
        ''media/uploads/1/merged.mp4'' = Some ''ABC''"
proof -
  let ?e = "env0 chunks3"
  let ?out = "''media/uploads/1/merged.mp4''"
  have g: "filepath_Glob ?e (filepath_Join ?e ''media/uploads/1'' ''*.chunk'') = Inr chunks3"
    by simp
  have ok: "sort_Slice_ok ?e chunks3"
    by (simp add: sort_Slice_ok_def sorted3) (simp add: chunks3_def chunkLess_def keys3)
  have n: "?out \<notin> set chunks3"
    by (simp add: chunks3_def)
  have m: "mergeChunks ?e ''media/uploads/1'' ?out world3 =
      (None, snd (mergeChunks ?e ''media/uploads/1'' ?out world3))"
    using merge3(1) by (metis prod.collapse)
  have d: "distinct (map extractNumber chunks3)"
    by (simp add: chunks3_def keys3)
  have p: "mset (rev chunks3) = mset chunks3" by simp
  have ok': "sort_Slice_ok (env0 (rev chunks3)) (rev chunks3)"
    by (simp add: sort_Slice_ok_def sorted3) (simp add: chunks3_def chunkLess_def keys3)
  show ?thesis
    using mergeChunks_distinct_keys [OF g ok n m d, of "rev chunks3" "env0 (rev chunks3)"]
          ok d ok' merge3(2)
    by simp
qed

section \<open>Chunks without digits\<close>

text \<open>
  Claim C8, as stated: a chunk whose filename has no digits gets the key -1, which
  orders before every numbered chunk, and is merged at the front. A chunk whose
  number does not fit an \<^verbatim>\<open>int\<close> has the key -1 as well: the chunk without digits does
  not order before it, and below the numbered chunk (content N) is merged before the
  chunk without digits (content A).
\<close>

theorem extractNumber_sentinel_counterexample:
  "\<not> list_ex isDigit (filepath_Base ''media/uploads/1/a.chunk'')
   \<and> extractNumber ''media/uploads/1/a.chunk'' = - 1
   \<and> FindString_digits (filepath_Base ''media/uploads/1/99999999999999999999.chunk'')
       = ''99999999999999999999''
   \<and> \<not> extractNumber ''media/uploads/1/a.chunk''
         < extractNumber ''media/uploads/1/99999999999999999999.chunk''
   \<and> files worldMixed ''media/uploads/1/a.chunk'' = Some ''A''
   \<and> files worldMixed ''media/uploads/1/99999999999999999999.chunk'' = Some ''N''
   \<and> mergeChunks (env0 chunksMixed) ''media/uploads/1'' ''media/uploads/1/merged.mp4'' worldMixed =
       (None, worldMixed\<lparr>files := (files worldMixed)(''media/uploads/1/merged.mp4'' \<mapsto> ''NA'')\<rparr>)"
  by (simp add: digits_more keys_more)
     (simp add: run_eval sorted_more worldMixed_def filepath_Base_def isDigit_def)

text \<open>
  Claim C8, amended. For every chunk whose filename contains no digits,
  \<^verbatim>\<open>extractNumber\<close> returns -1, which is less than the key of every chunk whose first
  run of digits is at most \<open>2^63 - 1\<close>. Whatever the names of the chunks, the merge
  returns \<^verbatim>\<open>nil\<close> when the output file can be created and every chunk can be opened
  and read. In the merged file only chunks whose key is also -1 come before such a
  chunk.
\<close>

theorem extractNumber_no_digits:
  assumes "\<not> list_ex isDigit (filepath_Base c)"
  shows "extractNumber c = - 1
       \<and> (FindString_digits (filepath_Base c') \<noteq> [] \<and>
            decimal (FindString_digits (filepath_Base c')) \<le> maxInt \<longrightarrow>
            extractNumber c < extractNumber c')
       \<and> (filepath_Glob e (filepath_Join e inputDir ''*.chunk'') = Inr chunks \<and>
            sort_Slice_ok e chunks \<and> fault e (Create outputFile) = None \<and>
            (\<forall>x \<in> set chunks. files w x \<noteq> None \<and> fault e (Open x) = None \<and>
                                fault e (ReadFrom x) = None) \<longrightarrow>
            fst (mergeChunks e inputDir outputFile w) = None)
       \<and> (filepath_Glob e (filepath_Join e inputDir ''*.chunk'') = Inr chunks \<and>
            sort_Slice_ok e chunks \<and> outputFile \<notin> set chunks \<and>
            mergeChunks e inputDir outputFile w = (None, w') \<and>
            sort_Slice e chunkLess chunks = pre @ c # post \<longrightarrow>
            (\<forall>x \<in> set pre. extractNumber x = - 1) \<and>
            files w' outputFile = Some (contents w pre @ contents w [c] @ contents w post))"
proof -
  have a: "extractNumber c = - 1"
    using FindString_digits_none [OF assms] by (simp add: extractNumber_value)
  have b: "extractNumber c < extractNumber c'"
    if "FindString_digits (filepath_Base c') \<noteq> []"
       "decimal (FindString_digits (filepath_Base c')) \<le> maxInt"
  proof -
    have "0 \<le> extractNumber c'" using that by (simp add: extractNumber_value [of c'])
    then show ?thesis using a by simp
  qed
  have m: "fst (mergeChunks e inputDir outputFile w) = None"
    if "filepath_Glob e (filepath_Join e inputDir ''*.chunk'') = Inr chunks"
       "sort_Slice_ok e chunks" "fault e (Create outputFile) = None"
       "\<forall>x \<in> set chunks. files w x \<noteq> None \<and> fault e (Open x) = None \<and> fault e (ReadFrom x) = None"
    using that(1,3)
  proof (rule mergeChunks_succeeds)
    fix x assume "x \<in> set (sort_Slice e chunkLess chunks)"
    then have "x \<in> set chunks" using sort_Slice_ok_set [OF that(2)] by simp
    then show "files w x \<noteq> None \<and> fault e (Open x) = None \<and> fault e (ReadFrom x) = None"
      using that(4) by blast
  qed
  have f: "(\<forall>x \<in> set pre. extractNumber x = - 1) \<and>
      files w' outputFile = Some (contents w pre @ contents w [c] @ contents w post)"
    if g: "filepath_Glob e (filepath_Join e inputDir ''*.chunk'') = Inr chunks"
       and ok: "sort_Slice_ok e chunks" and n: "outputFile \<notin> set chunks"
       and r: "mergeChunks e inputDir outputFile w = (None, w')"
       and sp: "sort_Slice e chunkLess chunks = pre @ c # post"
  proof
    show "\<forall>x \<in> set pre. extractNumber x = - 1"
    proof
      fix x assume x: "x \<in> set pre"
      have "sorted (map extractNumber (pre @ c # post))"
        using sort_Slice_ok_sorted [OF ok] sp by simp
      then have "extractNumber x \<le> extractNumber c"
        using x by (auto simp: sorted_append)
      then show "extractNumber x = - 1"
        using a extractNumber_ge [of x] by simp
    qed
    have n': "outputFile \<notin> set (sort_Slice e chunkLess chunks)"
      using n sort_Slice_ok_set [OF ok] by simp
    have "files w' outputFile = Some (contents w (pre @ [c] @ post))"
      using mergeChunks_output [OF g n' r] sp by simp
    then show "files w' outputFile = Some (contents w pre @ contents w [c] @ contents w post)"
      by (simp only: contents_append)
  qed
  show ?thesis using a b m f by blast
qed

theorem extractNumber_no_digits_witness:
  "\<not> list_ex isDigit (filepath_Base ''media/uploads/1/a.chunk'')
   \<and> extractNumber ''media/uploads/1/a.chunk'' = - 1
   \<and> extractNumber ''media/uploads/1/a.chunk'' < extractNumber ''media/uploads/1/1.chunk''
   \<and> sort_Slice_ok (env0 chunksLetter) chunksLetter
   \<and> sort_Slice (env0 chunksLetter) chunkLess chunksLetter
       = [] @ ''media/uploads/1/a.chunk'' # [''media/uploads/1/1.chunk'']
   \<and> fst (mergeChunks (env0 chunksLetter) ''media/uploads/1'' ''media/uploads/1/merged.mp4''
            worldLetter) = None
   \<and> files (snd (mergeChunks (env0 chunksLetter) ''media/uploads/1'' ''media/uploads/1/merged.mp4''
                   worldLetter)) ''media/uploads/1/merged.mp4'' = Some ''AN''"
proof -
  let ?e = "env0 chunksLetter"
  let ?a = "''media/uploads/1/a.chunk''"
  let ?one = "''media/uploads/1/1.chunk''"
  let ?out = "''media/uploads/1/merged.mp4''"
  let ?w' = "snd (mergeChunks ?e ''media/uploads/1'' ?out worldLetter)"
  have nd: "\<not> list_ex isDigit (filepath_Base ?a)"
    by (simp add: filepath_Base_def isDigit_def)
  have d1: "FindString_digits (filepath_Base ?one) \<noteq> [] \<and>
            decimal (FindString_digits (filepath_Base ?one)) \<le> maxInt"
    by (simp add: key_eval)
  have g: "filepath_Glob ?e (filepath_Join ?e ''media/uploads/1'' ''*.chunk'') = Inr chunksLetter"
    by simp
  have srt: "sort_Slice ?e chunkLess chunksLetter = [] @ ?a # [?one]"
    by (simp add: sorted_more)
  have ok: "sort_Slice_ok ?e chunksLetter"
    unfolding sort_Slice_ok_def srt by (simp add: chunksLetter_def chunkLess_def keys_more keys3)
  have cr: "fault ?e (Create ?out) = None" by simp
  have io: "\<forall>x \<in> set chunksLetter. files worldLetter x \<noteq> None \<and> fault ?e (Open x) = None \<and>
              fault ?e (ReadFrom x) = None"
    by (simp add: chunksLetter_def worldLetter_def)
  have n: "?out \<notin> set chunksLetter" by (simp add: chunksLetter_def)
  note T = extractNumber_no_digits [OF nd, of ?one ?e "''media/uploads/1''" chunksLetter ?out
             worldLetter ?w' "[]" "[?one]"]
  have f: "fst (mergeChunks ?e ''media/uploads/1'' ?out worldLetter) = None"
    using T g ok cr io by blast
  then have m: "mergeChunks ?e ''media/uploads/1'' ?out worldLetter = (None, ?w')"
    by (metis prod.collapse)
  have "files ?w' ?out = Some (contents worldLetter [] @ contents worldLetter [?a]
           @ contents worldLetter [?one])"
    using T g ok n m srt by blast
  then have c: "files ?w' ?out = Some ''AN''"
    by (simp add: contents_def worldLetter_def)
  have k: "extractNumber ?a = - 1" "extractNumber ?a < extractNumber ?one"
    using T d1 by blast+
  show ?thesis using nd k ok srt f c by simp
qed

end
